theory Spec2Isabelle
  imports Complex_Main "HOL-Library.Product_Lexorder"
begin

section \<open>Python strings\<close>

text \<open>
  \<^verbatim>\<open>process_pdfs.py\<close> works on Python \<open>str\<close> values. They are modelled as
  \<open>string\<close>, one \<open>char\<close> per code point, and the character classes below are
  those of Python restricted to ASCII: font names, headings and the literals of the
  source are ASCII text. Code points beyond ASCII are outside the model.
\<close>

definition ascii_uppercase :: string where
  "ascii_uppercase = ''ABCDEFGHIJKLMNOPQRSTUVWXYZ''"

definition ascii_lowercase :: string where
  "ascii_lowercase = ''abcdefghijklmnopqrstuvwxyz''"

definition digits :: string where
  "digits = ''0123456789''"

definition c_isupper :: "char \<Rightarrow> bool" where
  "c_isupper c = (c \<in> set ascii_uppercase)"

definition c_islower :: "char \<Rightarrow> bool" where
  "c_islower c = (c \<in> set ascii_lowercase)"

definition c_isalpha :: "char \<Rightarrow> bool" where
  "c_isalpha c = (c_isupper c \<or> c_islower c)"

definition c_isdigit :: "char \<Rightarrow> bool" where
  "c_isdigit c = (c \<in> set digits)"

text \<open>
  Whitespace as \<open>str.strip()\<close> and the regular expression class \<open>\s\<close> see it in
  ASCII: the code points 9 to 13 and 28 to 32.
\<close>

definition c_isspace :: "char \<Rightarrow> bool" where
  "c_isspace c = (let n = (of_char c :: nat) in (9 \<le> n \<and> n \<le> 13) \<or> (28 \<le> n \<and> n \<le> 32))"

definition c_lower :: "char \<Rightarrow> char" where
  "c_lower c = (case map_of (zip ascii_uppercase ascii_lowercase) c of Some l \<Rightarrow> l | None \<Rightarrow> c)"

definition c_upper :: "char \<Rightarrow> char" where
  "c_upper c = (case map_of (zip ascii_lowercase ascii_uppercase) c of Some u \<Rightarrow> u | None \<Rightarrow> c)"

definition lower :: "string \<Rightarrow> string" where
  "lower s = map c_lower s"

definition upper :: "string \<Rightarrow> string" where
  "upper s = map c_upper s"

definition strip :: "string \<Rightarrow> string" where
  "strip s = rev (dropWhile c_isspace (rev (dropWhile c_isspace s)))"

text \<open>\<open>s.startswith(p)\<close> and \<open>sub in s\<close> on strings.\<close>

fun startswith :: "string \<Rightarrow> string \<Rightarrow> bool" where
  "startswith s [] = True"
| "startswith [] (p # ps) = False"
| "startswith (c # s) (p # ps) = (c = p \<and> startswith s ps)"

fun contains :: "string \<Rightarrow> string \<Rightarrow> bool" where
  "contains [] sub = (sub = [])"
| "contains (c # s) sub = (startswith (c # s) sub \<or> contains s sub)"

text \<open>\<open>s.split(d)\<close> for a one-character separator: never an empty list.\<close>

fun split_on :: "char \<Rightarrow> string \<Rightarrow> string list" where
  "split_on d [] = [[]]"
| "split_on d (c # s) =
     (if c = d then [] # split_on d s
      else (case split_on d s of [] \<Rightarrow> [[c]] | w # ws \<Rightarrow> (c # w) # ws))"

text \<open>
  \<open>str.isnumeric\<close>, \<open>str.isupper\<close> and \<open>str.istitle\<close>. \<open>istitle\<close> follows the
  loop of CPython: an uppercase character may only follow an uncased one, a lowercase
  character only a cased one, and there is at least one cased character.
\<close>

definition isnumeric :: "string \<Rightarrow> bool" where
  "isnumeric s = (s \<noteq> [] \<and> list_all c_isdigit s)"

definition isupper :: "string \<Rightarrow> bool" where
  "isupper s = (\<not> list_ex c_islower s \<and> list_ex c_isupper s)"

fun istitle_from :: "bool \<Rightarrow> bool \<Rightarrow> string \<Rightarrow> bool" where
  "istitle_from previous_is_cased cased [] = cased"
| "istitle_from previous_is_cased cased (c # s) =
     (if c_isupper c then (if previous_is_cased then False else istitle_from True True s)
      else if c_islower c then (if \<not> previous_is_cased then False else istitle_from True True s)
      else istitle_from False cased s)"

definition istitle :: "string \<Rightarrow> bool" where
  "istitle s = istitle_from False False s"

text \<open>
  The two patterns of the noise filter, as \<open>re.match\<close> decides them.
  \<^verbatim>\<open>^\d+\.\s*$\<close>: one or more digits, a period, then only whitespace.
  \<^verbatim>\<open>^[IVXLCDM]+\.$\<close>: one or more Roman-numeral letters, a period, and the end of
  the string, where \<open>$\<close> also accepts one final newline.
\<close>

definition match_number_period :: "string \<Rightarrow> bool" where
  "match_number_period s =
     (takeWhile c_isdigit s \<noteq> [] \<and>
      (case dropWhile c_isdigit s of [] \<Rightarrow> False
       | c # r \<Rightarrow> c = CHR ''.'' \<and> list_all c_isspace r))"

definition match_roman_period :: "string \<Rightarrow> bool" where
  "match_roman_period s =
     (takeWhile (\<lambda>c. c \<in> set ''IVXLCDM'') s \<noteq> [] \<and>
      (case dropWhile (\<lambda>c. c \<in> set ''IVXLCDM'') s of [] \<Rightarrow> False
       | c # r \<Rightarrow> c = CHR ''.'' \<and> (r = [] \<or> r = [CHR 0x0A])))"

section \<open>Exceptions, floats and the parsed document\<close>

text \<open>
  The exceptions that reach the handlers of \<open>extract_outline_from_pdf\<close>, each with the
  text \<open>str(e)\<close>. \<open>ImportError\<close> has a handler of its own; every other exception is
  handled by \<open>except Exception\<close>.
\<close>

datatype exn = ImportError string | TypeError string | KeyError string | OtherException string

text \<open>The text of a \<open>KeyError\<close> is the key in quotes, as \<open>repr\<close> prints it.\<close>

fun exn_str :: "exn \<Rightarrow> string" where
  "exn_str (ImportError m) = m"
| "exn_str (TypeError m) = m"
| "exn_str (KeyError k) = [CHR 0x27] @ k @ [CHR 0x27]"
| "exn_str (OtherException m) = m"

text \<open>
  Font sizes and coordinates are Python floats. Their arithmetic is a parameter of the
  model: \<open>fl_lit\<close> reads a decimal literal, \<open>fl_round1 x\<close> is \<open>round(x, 1)\<close> and
  \<open>fl_mul\<close> is \<open>*\<close>. Comparison is the linear order of the type. Every theorem holds
  for every such interpretation, in particular for binary64 with its rounding.
\<close>

record 'f float_ops =
  fl_lit :: "rat \<Rightarrow> 'f"
  fl_round1 :: "'f \<Rightarrow> 'f"
  fl_mul :: "'f \<Rightarrow> 'f \<Rightarrow> 'f"

text \<open>Exact rational arithmetic, the interpretation used to run examples.\<close>

definition exact_ops :: "rat float_ops" where
  "exact_ops = \<lparr> fl_lit = (\<lambda>q. q), fl_round1 = (\<lambda>x. of_int (round (x * 10)) / 10), fl_mul = (\<lambda>x y. x * y) \<rparr>"

text \<open>
  What PyMuPDF hands to the code. A span of \<open>get_text("dict")\<close> has its text, font
  name, size, integer style flags and bounding box \<open>(x0, y0, x1, y1)\<close>; a block has
  a type (0 for text) and lines of spans; a page is its list of blocks; a document has
  an optional metadata title, the table of contents of \<open>get_toc()\<close> as
  \<open>(level, text, page)\<close> triples, and its pages. \<open>get_text("rawdict")\<close> gives the
  same blocks, lines and spans, except that a span has the key \<open>chars\<close>, its
  characters one by one, in place of the key \<open>text\<close>.
\<close>

type_synonym 'f bbox = "'f \<times> 'f \<times> 'f \<times> 'f"

record 'f span =
  span_text :: string
  span_font :: string
  span_size :: 'f
  span_flags :: int
  span_bbox :: "'f bbox"

record 'f block =
  block_type :: int
  block_lines :: "'f span list list"

record 'f document =
  metadata_title :: "string option"
  toc :: "(int \<times> string \<times> int) list"
  pages :: "'f block list list"

text \<open>
  The spans the nested loops over blocks, lines and spans visit on one page, in the
  order of the visit; only blocks of type 0 are entered.
\<close>

definition page_spans :: "'f block list \<Rightarrow> 'f span list" where
  "page_spans blocks = concat (map (\<lambda>b. if block_type b = 0 then concat (block_lines b) else []) blocks)"

text \<open>The same for the whole document, each span with its \<open>page_num\<close>.\<close>

definition doc_spans :: "'f document \<Rightarrow> (nat \<times> 'f span) list" where
  "doc_spans doc = concat (map (\<lambda>(page_num, blocks). map (\<lambda>sp. (page_num, sp)) (page_spans blocks))
                               (zip [0 ..< length (pages doc)] (pages doc)))"

section \<open>The bold test\<close>

text \<open>
  Lines 68 and 130:
  \<^verbatim>\<open>"bold" in font_name.lower() or "b" in span["flags"] or "b" in font_name.lower().split('-')\<close>.
  \<open>span["flags"]\<close> is an integer, and \<open>in\<close> with an integer on the right raises
  \<open>TypeError\<close>. \<open>or\<close> evaluates from the left and stops at the first true operand.
\<close>

definition type_error_msg :: string where
  "type_error_msg = ''argument of type 'int' is not iterable''"

definition str_in_int :: "string \<Rightarrow> int \<Rightarrow> exn + bool" where
  "str_in_int s n = Inl (TypeError type_error_msg)"

definition is_bold :: "'f span \<Rightarrow> exn + bool" where
  "is_bold sp =
     (if contains (lower (span_font sp)) ''bold'' then Inr True
      else (case str_in_int ''b'' (span_flags sp) of
              Inl e \<Rightarrow> Inl e
            | Inr b \<Rightarrow> Inr (b \<or> ''b'' \<in> set (split_on CHR ''-'' (lower (span_font sp))))))"

section \<open>Font statistics\<close>

text \<open>
  A Python \<open>dict\<close> keeps its keys in insertion order, and the order decides ties
  below, so a dictionary is an association list with distinct keys: a new key goes
  to the end, an existing key keeps its place.
\<close>

fun dict_set :: "('k \<times> 'v) list \<Rightarrow> 'k \<Rightarrow> 'v \<Rightarrow> ('k \<times> 'v) list" where
  "dict_set [] k v = [(k, v)]"
| "dict_set ((k', v') # d) k v = (if k' = k then (k', v) # d else (k', v') # dict_set d k v)"

record char_counts =
  bold :: nat
  normal :: nat

type_synonym 'f font_styles = "(string \<times> ('f \<times> char_counts) list) list"

text \<open>The body of the innermost loop of the first pass (lines 66 to 76).\<close>

definition record_span ::
  "'f float_ops \<Rightarrow> 'f font_styles \<times> 'f list \<Rightarrow> 'f span \<Rightarrow> exn + ('f font_styles \<times> 'f list)" where
  "record_span fl st sp =
     (let font_name = span_font sp;
          sz = fl_round1 fl (span_size sp)
      in case is_bold sp of
           Inl e \<Rightarrow> Inl e
         | Inr b \<Rightarrow>
             (let sizes = (case map_of (fst st) font_name of None \<Rightarrow> [] | Some d \<Rightarrow> d);
                  cnt = (case map_of sizes sz of None \<Rightarrow> \<lparr> bold = 0, normal = 0 \<rparr> | Some c \<Rightarrow> c);
                  cnt' = (if b then cnt \<lparr> bold := bold cnt + length (span_text sp) \<rparr>
                          else cnt \<lparr> normal := normal cnt + length (span_text sp) \<rparr>)
              in Inr (dict_set (fst st) font_name (dict_set sizes sz cnt'), snd st @ [sz])))"

fun collect_stats ::
  "'f float_ops \<Rightarrow> 'f font_styles \<times> 'f list \<Rightarrow> 'f span list \<Rightarrow> exn + ('f font_styles \<times> 'f list)" where
  "collect_stats fl st [] = Inr st"
| "collect_stats fl st (sp # sps) =
     (case record_span fl st sp of Inl e \<Rightarrow> Inl e | Inr st' \<Rightarrow> collect_stats fl st' sps)"

section \<open>Body font size and thresholds\<close>

text \<open>
  \<open>Counter(xs)\<close> counts in a dictionary, so in the order of first occurrence, and
  \<open>most_common(1)\<close> takes \<open>max\<close> over its items by count, which keeps the first of
  several maximal items. \<open>most_common1 xs\<close> is \<open>Counter(xs).most_common(1)[0][0]\<close>,
  \<open>None\<close> where the index would fail on an empty list.
\<close>

definition counter :: "'a list \<Rightarrow> ('a \<times> nat) list" where
  "counter xs = fold (\<lambda>x d. dict_set d x (case map_of d x of None \<Rightarrow> 1 | Some n \<Rightarrow> n + 1)) xs []"

fun first_max :: "'a \<times> nat \<Rightarrow> ('a \<times> nat) list \<Rightarrow> 'a \<times> nat" where
  "first_max best [] = best"
| "first_max best (kv # kvs) = first_max (if snd best < snd kv then kv else best) kvs"

definition most_common1 :: "'a list \<Rightarrow> 'a option" where
  "most_common1 xs = (case counter xs of [] \<Rightarrow> None | kv # kvs \<Rightarrow> Some (fst (first_max kv kvs)))"

text \<open>
  The loop of lines 86 to 90 over every (font, size) entry, carrying
  \<open>(max_normal_chars, body_font_size)\<close>.
\<close>

fun refine_body :: "nat \<times> 'f \<Rightarrow> ('f \<times> char_counts) list \<Rightarrow> nat \<times> 'f" where
  "refine_body acc [] = acc"
| "refine_body acc ((sz, data) # rest) =
     refine_body (if normal data > fst acc then (normal data, sz) else acc) rest"

definition style_items :: "'f font_styles \<Rightarrow> ('f \<times> char_counts) list" where
  "style_items font_styles = concat (map snd font_styles)"

text \<open>Lines 79 to 93: \<open>body_font_size\<close> as it stands before line 95.\<close>

definition estimate_body :: "'f float_ops \<Rightarrow> 'f font_styles \<Rightarrow> 'f list \<Rightarrow> 'f" where
  "estimate_body fl font_styles all_sizes =
     (case most_common1 all_sizes of
        None \<Rightarrow> fl_lit fl 0
      | Some common \<Rightarrow>
          (let body_font_size = snd (refine_body (0, common) (style_items font_styles))
           in if body_font_size = fl_lit fl 0 then common else body_font_size))"

definition H1_FACTOR :: "'f float_ops \<Rightarrow> 'f" where
  "H1_FACTOR fl = fl_lit fl (16 / 10)"

definition H2_FACTOR :: "'f float_ops \<Rightarrow> 'f" where
  "H2_FACTOR fl = fl_lit fl (13 / 10)"

definition H3_FACTOR :: "'f float_ops \<Rightarrow> 'f" where
  "H3_FACTOR fl = fl_lit fl (11 / 10)"

definition h1_threshold :: "'f float_ops \<Rightarrow> 'f \<Rightarrow> 'f" where
  "h1_threshold fl body_font_size = fl_mul fl body_font_size (H1_FACTOR fl)"

definition h2_threshold :: "'f float_ops \<Rightarrow> 'f \<Rightarrow> 'f" where
  "h2_threshold fl body_font_size = fl_mul fl body_font_size (H2_FACTOR fl)"

definition h3_threshold :: "'f float_ops \<Rightarrow> 'f \<Rightarrow> 'f" where
  "h3_threshold fl body_font_size = fl_mul fl body_font_size (H3_FACTOR fl)"

section \<open>Classification\<close>

datatype level = H1 | H2 | H3

text \<open>
  A candidate is the dictionary of line 157, with its bounding box; an outline entry
  is a dictionary of the returned outline, where the key \<open>bbox\<close> may be absent.
\<close>

record 'f candidate =
  c_level :: level
  c_text :: string
  c_page :: int
  c_bbox :: "'f bbox"

record 'f entry =
  e_level :: level
  e_text :: string
  e_page :: int
  e_bbox :: "'f bbox option"


text \<open>The noise filter of lines 133 to 138 on the stripped text: true where the loop continues.\<close>

definition noise_prefixes :: "string list" where
  "noise_prefixes = [''figure'', ''table'', ''formula'', ''example'', ''g.mamatha'', ''source:'']"

definition is_noise :: "string \<Rightarrow> bool" where
  "is_noise t =
     (t = [] \<or> length t < 5 \<or> isnumeric t \<or>
      match_number_period t \<or>
      match_roman_period t \<or>
      contains t ''G.MAMATHA, CET, CBIT'' \<or>
      list_ex (startswith (lower t)) noise_prefixes)"

text \<open>The chain of lines 140 to 154.\<close>

definition heading_level :: "'f::linorder float_ops \<Rightarrow> 'f \<Rightarrow> 'f \<Rightarrow> bool \<Rightarrow> string \<Rightarrow> level option" where
  "heading_level fl body_font_size font_size bold_flag t =
     (if font_size \<ge> h1_threshold fl body_font_size \<and> bold_flag then Some H1
      else if font_size \<ge> h2_threshold fl body_font_size \<and> bold_flag then Some H2
      else if font_size \<ge> h3_threshold fl body_font_size \<and> bold_flag then Some H3
      else if font_size > body_font_size \<and> (istitle t \<or> isupper t) then
        (if font_size \<ge> h2_threshold fl body_font_size then Some H2 else Some H3)
      else None)"

text \<open>
  The second pass reads the spans of \<open>get_text("rawdict")\<close> (line 121). Such a span
  has no key \<open>text\<close>, so \<open>span["text"]\<close> on line 127 raises \<open>KeyError\<close>.
\<close>

definition rawdict_span_text :: "'f span \<Rightarrow> exn + string" where
  "rawdict_span_text sp = Inl (KeyError ''text'')"

text \<open>
  The rest of the loop body (lines 127 to 162) for a value \<open>raw_text\<close> of
  \<open>span["text"]\<close>: an exception of the bold test, or the candidate appended, if any.
\<close>

definition classify_fragment ::
  "'f::linorder float_ops \<Rightarrow> 'f \<Rightarrow> nat \<Rightarrow> 'f span \<Rightarrow> string \<Rightarrow> exn + 'f candidate option" where
  "classify_fragment fl body_font_size page_num sp raw_text =
     (let t = strip raw_text;
          font_size = fl_round1 fl (span_size sp)
      in case is_bold sp of
           Inl e \<Rightarrow> Inl e
         | Inr b \<Rightarrow>
             if is_noise t then Inr None
             else (case heading_level fl body_font_size font_size b t of
                     None \<Rightarrow> Inr None
                   | Some l \<Rightarrow> Inr (Some \<lparr> c_level = l, c_text = t, c_page = int page_num + 1,
                                           c_bbox = span_bbox sp \<rparr>)))"

text \<open>The body of the innermost loop of the second pass, on a span of that pass.\<close>

definition classify_span ::
  "'f::linorder float_ops \<Rightarrow> 'f \<Rightarrow> nat \<Rightarrow> 'f span \<Rightarrow> exn + 'f candidate option" where
  "classify_span fl body_font_size page_num sp =
     (case rawdict_span_text sp of
        Inl e \<Rightarrow> Inl e
      | Inr raw_text \<Rightarrow> classify_fragment fl body_font_size page_num sp raw_text)"

fun classify_all ::
  "'f::linorder float_ops \<Rightarrow> 'f \<Rightarrow> (nat \<times> 'f span) list \<Rightarrow> exn + 'f candidate list" where
  "classify_all fl body_font_size [] = Inr []"
| "classify_all fl body_font_size ((page_num, sp) # rest) =
     (case classify_span fl body_font_size page_num sp of
        Inl e \<Rightarrow> Inl e
      | Inr r \<Rightarrow>
          (case classify_all fl body_font_size rest of
             Inl e \<Rightarrow> Inl e
           | Inr cs \<Rightarrow> Inr ((case r of None \<Rightarrow> [] | Some c \<Rightarrow> [c]) @ cs)))"

section \<open>Ordering, deduplication and the title\<close>

text \<open>
  \<open>list.sort\<close> with a key is stable, as \<open>sort_key\<close> is; the key is
  \<open>(x["page"], x["bbox"][1])\<close>, compared lexicographically.
\<close>

definition sort_position :: "'f candidate \<Rightarrow> int \<times> 'f" where
  "sort_position x = (c_page x, fst (snd (c_bbox x)))"

definition unique_key :: "'f candidate \<Rightarrow> level \<times> string \<times> int" where
  "unique_key c = (c_level c, lower (c_text c), c_page c)"

fun dedupe :: "(level \<times> string \<times> int) set \<Rightarrow> 'f candidate list \<Rightarrow> 'f candidate list" where
  "dedupe seen_entries [] = []"
| "dedupe seen_entries (c # cs) =
     (if unique_key c \<notin> seen_entries then c # dedupe (insert (unique_key c) seen_entries) cs
      else dedupe seen_entries cs)"

text \<open>Line 175 appends the candidate dictionary itself, all four keys of it.\<close>

definition as_entry :: "'f candidate \<Rightarrow> 'f entry" where
  "as_entry c = \<lparr> e_level = c_level c, e_text = c_text c, e_page = c_page c, e_bbox = Some (c_bbox c) \<rparr>"

definition sequence :: "'f::linorder candidate list \<Rightarrow> 'f candidate list" where
  "sequence temp_outline_candidates = dedupe {} (sort_key sort_position temp_outline_candidates)"

text \<open>Lines 179 to 185, for a non-empty or empty \<open>outline_entries\<close>.\<close>

definition refine_title :: "string \<Rightarrow> string \<Rightarrow> 'f entry list \<Rightarrow> string" where
  "refine_title stem title0 outline_entries =
     (case outline_entries of
        [] \<Rightarrow> title0
      | e0 # _ \<Rightarrow>
          if title0 = stem \<and> e_page e0 = 1 then
            (let title1 = (if e_level e0 = H1 \<and> length (e_text e0) < 50 then e_text e0 else title0)
             in if contains (upper title1) ''UNIT-IV'' \<and> e_page e0 = 1 then ''UNIT-IV'' else title1)
          else title0)"

section \<open>The table of contents\<close>

definition toc_level :: "int \<Rightarrow> level" where
  "toc_level l = (if l = 2 then H2 else if l \<ge> 3 then H3 else H1)"

definition toc_keep :: "int \<times> string \<times> int \<Rightarrow> bool" where
  "toc_keep item = (case item of (l, t, p) \<Rightarrow> strip t \<noteq> [] \<and> list_ex c_isalpha (strip t))"

definition toc_entry :: "int \<times> string \<times> int \<Rightarrow> 'f entry" where
  "toc_entry item = (case item of (l, t, p) \<Rightarrow>
     \<lparr> e_level = toc_level l, e_text = strip t, e_page = p, e_bbox = None \<rparr>)"

fun toc_outline :: "(int \<times> string \<times> int) list \<Rightarrow> 'f entry list" where
  "toc_outline [] = []"
| "toc_outline (item # rest) =
     (if toc_keep item then toc_entry item # toc_outline rest else toc_outline rest)"

section \<open>extract_outline_from_pdf\<close>

record 'f result =
  title :: string
  outline :: "'f entry list"

text \<open>Lines 12 and 20 to 23: the file name's stem, or the stripped metadata title.\<close>

definition initial_title :: "string \<Rightarrow> 'f document \<Rightarrow> string" where
  "initial_title stem doc =
     (case metadata_title doc of
        None \<Rightarrow> stem
      | Some t \<Rightarrow> if t \<noteq> [] \<and> strip t \<noteq> [] then strip t else stem)"

text \<open>
  The \<open>try\<close> block. \<open>opened\<close> is what \<open>fitz.open(pdf_path)\<close> does: it raises or
  gives the document. The value is the exception that leaves the block, or what the
  function returns without one.
\<close>

definition try_block :: "'f::linorder float_ops \<Rightarrow> string \<Rightarrow> exn + 'f document \<Rightarrow> exn + 'f result" where
  "try_block fl stem opened =
     (case opened of
        Inl e \<Rightarrow> Inl e
      | Inr doc \<Rightarrow>
          (let title0 = initial_title stem doc in
           if toc doc \<noteq> [] then Inr \<lparr> title = title0, outline = toc_outline (toc doc) \<rparr>
           else
             (case collect_stats fl ([], []) (map snd (doc_spans doc)) of
                Inl e \<Rightarrow> Inl e
              | Inr (font_styles, all_sizes) \<Rightarrow>
                  (let body_font_size = estimate_body fl font_styles all_sizes in
                   if body_font_size = fl_lit fl 0 then Inr \<lparr> title = title0, outline = [] \<rparr>
                   else
                     (case classify_all fl body_font_size (doc_spans doc) of
                        Inl e \<Rightarrow> Inl e
                      | Inr temp_outline_candidates \<Rightarrow>
                          if temp_outline_candidates \<noteq> [] then
                            (let outline_entries = map as_entry (sequence temp_outline_candidates)
                             in Inr \<lparr> title = refine_title stem title0 outline_entries,
                                      outline = outline_entries \<rparr>)
                          else Inr \<lparr> title = title0, outline = [] \<rparr>)))))"

text \<open>The two handlers (lines 187 to 199).\<close>

definition error_artifact :: "string \<Rightarrow> string \<Rightarrow> 'f result" where
  "error_artifact stem msg =
     \<lparr> title = ''Processing Error for '' @ stem,
       outline = [\<lparr> e_level = H1, e_text = msg, e_page = 1, e_bbox = None \<rparr>] \<rparr>"

fun error_text :: "exn \<Rightarrow> string" where
  "error_text (ImportError m) = ''PyMuPDF not found. Please install it.''"
| "error_text e = ''Error: '' @ exn_str e"

definition extract_outline_from_pdf :: "'f::linorder float_ops \<Rightarrow> string \<Rightarrow> exn + 'f document \<Rightarrow> 'f result" where
  "extract_outline_from_pdf fl stem opened =
     (case try_block fl stem opened of
        Inl e \<Rightarrow> error_artifact stem (error_text e)
      | Inr r \<Rightarrow> r)"

section \<open>process_pdfs\<close>

text \<open>
  The loop of lines 230 to 243 over the files \<open>(stem, opened)\<close> found in the input
  directory. The output directory is a map from file names to the data written;
  \<open>can_write\<close> tells for which names \<open>open\<close> and \<open>json.dump\<close> succeed, and a failed
  write is caught and leaves the directory as it was.
\<close>

definition process_one ::
  "'f::linorder float_ops \<Rightarrow> (string \<Rightarrow> bool) \<Rightarrow> string \<times> (exn + 'f document) \<Rightarrow>
   (string \<rightharpoonup> 'f result) \<Rightarrow> (string \<rightharpoonup> 'f result)" where
  "process_one fl can_write pdf_file output_dir =
     (let extracted_data = extract_outline_from_pdf fl (fst pdf_file) (snd pdf_file);
          output_file = fst pdf_file @ ''.json''
      in if can_write output_file then output_dir(output_file \<mapsto> extracted_data) else output_dir)"

definition process_pdfs ::
  "'f::linorder float_ops \<Rightarrow> (string \<Rightarrow> bool) \<Rightarrow> (string \<times> (exn + 'f document)) list \<Rightarrow>
   (string \<rightharpoonup> 'f result) \<Rightarrow> (string \<rightharpoonup> 'f result)" where
  "process_pdfs fl can_write pdf_files output_dir = fold (process_one fl can_write) pdf_files output_dir"

section \<open>Notions of the statements\<close>

text \<open>
  The specification's "most frequent size, ties broken by the first-encountered
  size": \<open>m\<close> occurs in \<open>xs\<close>, no element occurs more often, and every element
  met before the first \<open>m\<close> occurs strictly less often.
\<close>

definition first_most_frequent :: "'a list \<Rightarrow> 'a \<Rightarrow> bool" where
  "first_most_frequent xs m =
     (\<exists>pre post. xs = pre @ m # post \<and> m \<notin> set pre \<and>
        (\<forall>s \<in> set pre. count_list xs s < count_list xs m) \<and>
        (\<forall>s \<in> set xs. count_list xs s \<le> count_list xs m))"

text \<open>The distinct elements of a list in the order of their first occurrence.\<close>

fun first_occurrences :: "'a list \<Rightarrow> 'a list" where
  "first_occurrences [] = []"
| "first_occurrences (x # xs) = x # filter (\<lambda>y. y \<noteq> x) (first_occurrences xs)"

section \<open>Example inputs\<close>

definition example_span :: "string \<Rightarrow> string \<Rightarrow> int \<Rightarrow> rat \<Rightarrow> rat \<Rightarrow> rat span" where
  "example_span t f fl_bits sz y =
     \<lparr> span_text = t, span_font = f, span_size = sz, span_flags = fl_bits, span_bbox = (72, y, 300, y + sz) \<rparr>"

definition text_page :: "rat span list \<Rightarrow> rat block list" where
  "text_page sps = [\<lparr> block_type = 0, block_lines = [sps] \<rparr>]"

text \<open>A span whose style flags have the bold bit (16) and one whose font name ends in \<open>-B\<close>.\<close>

definition flag_bold_span :: "rat span" where
  "flag_bold_span = example_span ''Summary of Results'' ''Helvetica'' 16 18 100"

definition suffix_bold_span :: "rat span" where
  "suffix_bold_span = example_span ''Summary of Results'' ''Arial-B'' 0 18 100"

definition flag_bold_doc :: "rat document" where
  "flag_bold_doc = \<lparr> metadata_title = None, toc = [], pages = [text_page [flag_bold_span]] \<rparr>"

text \<open>An ordinary page: a bold heading over body text in a regular face.\<close>

definition plain_span :: "rat span" where
  "plain_span = example_span ''The quick brown fox jumps over the lazy dog.'' ''Times-Roman'' 4 10 140"

definition plain_doc :: "rat document" where
  "plain_doc = \<lparr> metadata_title = None, toc = [],
                 pages = [text_page [example_span ''Overview'' ''Times-Bold'' 20 18 100, plain_span]] \<rparr>"

text \<open>A document with a table of contents and a metadata title.\<close>

definition toc_doc :: "rat document" where
  "toc_doc = \<lparr> metadata_title = Some ''  Annual Report '',
               toc = [(1, ''Introduction'', 1), (3, ''Details'', 2)],
               pages = [text_page [plain_span]] \<rparr>"

text \<open>A document with a metadata title and no text at all.\<close>

definition titled_empty_doc :: "rat document" where
  "titled_empty_doc = \<lparr> metadata_title = Some ''Annual Report'', toc = [],
                        pages = [[\<lparr> block_type = 1, block_lines = [] \<rparr>]] \<rparr>"

text \<open>
  A document set in bold faces throughout, body text at 10pt: headings at 18pt and
  14pt, one repeated on its page, a caption at 20pt and a title-case line at 10.5pt.
\<close>

definition figure_span :: "rat span" where
  "figure_span = example_span ''Figure 3: results'' ''Arial-Bold'' 20 20 300"

definition findings_span :: "rat span" where
  "findings_span = example_span ''Detailed Findings'' ''Times-Bold'' 20 (105 / 10) 400"

definition headings_doc :: "rat document" where
  "headings_doc = \<lparr> metadata_title = None, toc = [],
     pages = [text_page [example_span ''Project Overview'' ''Arial-Bold'' 20 18 100,
                         example_span ''This report has three parts.'' ''Times-Bold'' 20 10 140,
                         figure_span,
                         findings_span,
                         example_span ''PROJECT OVERVIEW'' ''Arial-Bold'' 20 18 40],
              text_page [example_span ''Methods'' ''Arial-Bold'' 20 14 90,
                         example_span ''we measured every page twice.'' ''Times-Bold'' 20 10 120,
                         example_span ''the results follow below.'' ''Times-Bold'' 20 10 135]] \<rparr>"

text \<open>Four candidates as the second pass would append them, two with the same key.\<close>

definition example_candidates :: "rat candidate list" where
  "example_candidates =
     [\<lparr> c_level = H2, c_text = ''Methods'', c_page = 2, c_bbox = (72, 90, 300, 104) \<rparr>,
      \<lparr> c_level = H1, c_text = ''Project Overview'', c_page = 1, c_bbox = (72, 100, 300, 118) \<rparr>,
      \<lparr> c_level = H3, c_text = ''Detailed Findings'', c_page = 1, c_bbox = (72, 400, 300, 410) \<rparr>,
      \<lparr> c_level = H1, c_text = ''PROJECT OVERVIEW'', c_page = 1, c_bbox = (72, 40, 300, 58) \<rparr>]"

text \<open>A batch of three files; the second cannot be opened.\<close>

definition example_batch :: "(string \<times> (exn + rat document)) list" where
  "example_batch = [(''a'', Inr toc_doc),
                    (''x'', Inl (OtherException ''cannot open broken document'')),
                    (''b'', Inr titled_empty_doc)]"

text \<open>
  Two results of a statistics pass: one with bold text only, in which 18 and 10 are
  equally frequent, and one with two entries of 250 normal characters each.
\<close>

definition bold_styles :: "rat font_styles" where
  "bold_styles = [(''Arial-Bold'', [(18, \<lparr> bold = 32, normal = 0 \<rparr>)]),
                  (''Times-Bold'', [(10, \<lparr> bold = 80, normal = 0 \<rparr>)])]"

definition bold_sizes :: "rat list" where
  "bold_sizes = [18, 10, 10, 18]"

definition mixed_styles :: "rat font_styles" where
  "mixed_styles = [(''Arial'', [(18, \<lparr> bold = 40, normal = 0 \<rparr>), (12, \<lparr> bold = 0, normal = 250 \<rparr>)]),
                   (''Times-Roman'', [(10, \<lparr> bold = 0, normal = 250 \<rparr>)])]"

definition mixed_sizes :: "rat list" where
  "mixed_sizes = [18, 10, 12, 18]"

section \<open>The bold test raises\<close>

lemma map_snd_doc_spans: "map snd (doc_spans doc) = concat (map page_spans (pages doc))"
proof -
  have "map snd (doc_spans doc) =
        concat (map (\<lambda>p. page_spans (snd p)) (zip [0 ..< length (pages doc)] (pages doc)))"
    by (simp add: doc_spans_def map_concat comp_def case_prod_beta)
  also have "\<dots> = concat (map page_spans (map snd (zip [0 ..< length (pages doc)] (pages doc))))"
    by (simp only: map_map comp_def)
  also have "\<dots> = concat (map page_spans (pages doc))"
    by (simp add: map_snd_zip)
  finally show ?thesis .
qed

lemma in_page_spans:
  "b \<in> set blocks \<Longrightarrow> block_type b = 0 \<Longrightarrow> line \<in> set (block_lines b) \<Longrightarrow> sp \<in> set line
   \<Longrightarrow> sp \<in> set (page_spans blocks)"
  by (auto simp: page_spans_def)

lemma in_doc_spans:
  "page \<in> set (pages doc) \<Longrightarrow> b \<in> set page \<Longrightarrow> block_type b = 0 \<Longrightarrow> line \<in> set (block_lines b)
   \<Longrightarrow> sp \<in> set line \<Longrightarrow> sp \<in> set (map snd (doc_spans doc))"
  unfolding map_snd_doc_spans using in_page_spans by fastforce

lemma is_bold_eq:
  "is_bold sp = (if contains (lower (span_font sp)) ''bold'' then Inr True
                 else Inl (TypeError type_error_msg))"
  by (simp add: is_bold_def str_in_int_def)

lemma record_span_raises:
  "\<not> contains (lower (span_font sp)) ''bold'' \<Longrightarrow> record_span fl st sp = Inl (TypeError type_error_msg)"
  by (simp add: record_span_def is_bold_eq Let_def)

lemma record_span_returns:
  "contains (lower (span_font sp)) ''bold'' \<Longrightarrow> \<exists>st'. record_span fl st sp = Inr st'"
  by (simp add: record_span_def is_bold_eq Let_def)

lemma collect_stats_raises:
  "sp \<in> set sps \<Longrightarrow> \<not> contains (lower (span_font sp)) ''bold''
   \<Longrightarrow> collect_stats fl st sps = Inl (TypeError type_error_msg)"
proof (induction sps arbitrary: st)
  case Nil
  then show ?case by simp
next
  case (Cons a sps)
  show ?case
  proof (cases "contains (lower (span_font a)) ''bold''")
    case True
    then obtain st' where st': "record_span fl st a = Inr st'"
      using record_span_returns by blast
    from True Cons.prems have "sp \<in> set sps" by auto
    then show ?thesis using Cons.IH Cons.prems(2) st' by simp
  next
    case False
    then show ?thesis by (simp add: record_span_raises)
  qed
qed

text \<open>
  C1. The claim: a fragment is bold if and only if its font name contains "bold"
  (case-insensitively), or its style flags have the bold bit, or a hyphen-delimited
  part of its font name is the marker "b". The code does not decide it so: on a span
  whose flags have the bold bit, and on a span whose font name ends in \<open>-B\<close>, the
  test raises \<open>TypeError\<close> in place of answering true, and the document of such a
  span comes out as the error artifact.
\<close>

theorem is_bold_flags_and_suffix_raise:
  "is_bold flag_bold_span = Inl (TypeError type_error_msg) \<and>
   is_bold suffix_bold_span = Inl (TypeError type_error_msg) \<and>
   ''b'' \<in> set (split_on CHR ''-'' (lower (span_font suffix_bold_span))) \<and>
   extract_outline_from_pdf exact_ops ''report'' (Inr flag_bold_doc) =
     \<lparr> title = ''Processing Error for report'',
       outline = [\<lparr> e_level = H1, e_text = ''Error: argument of type 'int' is not iterable'',
                   e_page = 1, e_bbox = None \<rparr>] \<rparr>"
  by code_simp

text \<open>
  C2. On the heuristic path (no table of contents), a span of a text block whose
  lowercased font name does not contain "bold" makes the bold test evaluate
  \<open>"b" in span["flags"]\<close>, which raises \<open>TypeError\<close>; the exception leaves the
  \<open>try\<close> block and the function returns the error artifact: the title
  "Processing Error for " followed by the stem, and one H1 entry on page 1 with the
  error text.
\<close>

theorem non_bold_span_gives_error_artifact:
  assumes "toc doc = []"
    and "page \<in> set (pages doc)" and "b \<in> set page" and "block_type b = 0"
    and "line \<in> set (block_lines b)" and "sp \<in> set line"
    and "\<not> contains (lower (span_font sp)) ''bold''"
  shows "is_bold sp = Inl (TypeError type_error_msg) \<and>
         try_block fl stem (Inr doc) = Inl (TypeError type_error_msg) \<and>
         extract_outline_from_pdf fl stem (Inr doc) =
           \<lparr> title = ''Processing Error for '' @ stem,
             outline = [\<lparr> e_level = H1, e_text = ''Error: '' @ type_error_msg, e_page = 1, e_bbox = None \<rparr>] \<rparr>"
proof -
  have b: "is_bold sp = Inl (TypeError type_error_msg)"
    using assms(7) by (simp add: is_bold_eq)
  have "sp \<in> set (map snd (doc_spans doc))"
    using assms(2-6) by (rule in_doc_spans)
  then have "collect_stats fl ([], []) (map snd (doc_spans doc)) = Inl (TypeError type_error_msg)"
    using assms(7) by (rule collect_stats_raises)
  then have t: "try_block fl stem (Inr doc) = Inl (TypeError type_error_msg)"
    using assms(1) by (simp add: try_block_def)
  then have "extract_outline_from_pdf fl stem (Inr doc) = error_artifact stem (''Error: '' @ type_error_msg)"
    by (simp add: extract_outline_from_pdf_def)
  with b t show ?thesis by (simp add: error_artifact_def)
qed

theorem non_bold_span_gives_error_artifact_witness:
  "toc plain_doc = [] \<and> \<not> contains (lower (span_font plain_span)) ''bold'' \<and>
   extract_outline_from_pdf exact_ops ''report'' (Inr plain_doc) =
     \<lparr> title = ''Processing Error for report'',
       outline = [\<lparr> e_level = H1, e_text = ''Error: '' @ type_error_msg, e_page = 1, e_bbox = None \<rparr>] \<rparr>"
proof -
  have h1: "toc plain_doc = []"
    by (simp add: plain_doc_def)
  have h2: "text_page [example_span ''Overview'' ''Times-Bold'' 20 18 100, plain_span] \<in> set (pages plain_doc)"
    by (simp add: plain_doc_def)
  have h3: "\<lparr> block_type = 0, block_lines = [[example_span ''Overview'' ''Times-Bold'' 20 18 100, plain_span]] \<rparr>
            \<in> set (text_page [example_span ''Overview'' ''Times-Bold'' 20 18 100, plain_span])"
    by (simp add: text_page_def)
  have h4: "\<not> contains (lower (span_font plain_span)) ''bold''"
    by code_simp
  show ?thesis
    using non_bold_span_gives_error_artifact [OF h1 h2 h3 _ _ _ h4, of "[example_span ''Overview'' ''Times-Bold'' 20 18 100, plain_span]" exact_ops "''report''"] h1 h4
    by simp
qed

section \<open>The table of contents path\<close>

lemma toc_outline_eq: "toc_outline items = map toc_entry (filter toc_keep items)"
  by (induction items) simp_all

lemma scenario_A_entries:
  "(map toc_entry (filter toc_keep [(1, ''Introduction'', 1), (3, ''Details'', 2)]) :: 'f entry list) =
     [\<lparr> e_level = H1, e_text = ''Introduction'', e_page = 1, e_bbox = None \<rparr>,
      \<lparr> e_level = H3, e_text = ''Details'', e_page = 2, e_bbox = None \<rparr>]"
proof -
  have s1: "strip ''Introduction'' = ''Introduction''"
    by code_simp
  have s2: "strip ''Details'' = ''Details''"
    by code_simp
  have k1: "toc_keep (1, ''Introduction'', 1)"
    by code_simp
  have k2: "toc_keep (3, ''Details'', 2)"
    by code_simp
  show ?thesis
    by (simp add: k1 k2 toc_entry_def toc_level_def s1 s2)
qed

text \<open>
  C5. With a non-empty table of contents the outline is the table's entries in their
  order, each kept entry mapped on its own: level 2 gives H2, every level from 3 on
  gives H3, any other level (level 1) gives H1; the text is stripped and the page copied.
  An entry is dropped exactly when its stripped text is empty or has no alphabetic
  character, so the number of entries is the table's minus the dropped ones. The title
  is the metadata title or the file name's stem. On the table
  \<open>[(1, "Introduction", 1), (3, "Details", 2)]\<close> the outline is H1 "Introduction" on
  page 1 and H3 "Details" on page 2.
\<close>

theorem native_outline_is_mapped:
  assumes "toc doc \<noteq> []"
  shows "outline (extract_outline_from_pdf fl stem (Inr doc)) = map toc_entry (filter toc_keep (toc doc)) \<and>
         title (extract_outline_from_pdf fl stem (Inr doc)) = initial_title stem doc \<and>
         length (outline (extract_outline_from_pdf fl stem (Inr doc))) =
           length (toc doc) - length (filter (\<lambda>item. \<not> toc_keep item) (toc doc)) \<and>
         (\<forall>l t p. toc_keep (l, t, p) = (\<not> (strip t = [] \<or> (\<forall>c \<in> set (strip t). \<not> c_isalpha c)))) \<and>
         (\<forall>l t p. e_text (toc_entry (l, t, p) :: 'f entry) = strip t \<and> e_page (toc_entry (l, t, p) :: 'f entry) = p \<and>
                  e_bbox (toc_entry (l, t, p) :: 'f entry) = None \<and>
                  e_level (toc_entry (l, t, p) :: 'f entry) = (if l = 2 then H2 else if l \<ge> 3 then H3 else H1)) \<and>
         (toc doc = [(1, ''Introduction'', 1), (3, ''Details'', 2)] \<longrightarrow>
            outline (extract_outline_from_pdf fl stem (Inr doc)) =
              [\<lparr> e_level = H1, e_text = ''Introduction'', e_page = 1, e_bbox = None \<rparr>,
               \<lparr> e_level = H3, e_text = ''Details'', e_page = 2, e_bbox = None \<rparr>])"
proof -
  have r: "extract_outline_from_pdf fl stem (Inr doc) =
           \<lparr> title = initial_title stem doc, outline = map toc_entry (filter toc_keep (toc doc)) \<rparr>"
    using assms by (simp add: extract_outline_from_pdf_def try_block_def toc_outline_eq)
  have len: "length (filter toc_keep (toc doc)) =
             length (toc doc) - length (filter (\<lambda>item. \<not> toc_keep item) (toc doc))"
    using sum_length_filter_compl [of toc_keep "toc doc"] by simp
  have keep: "\<forall>l t p. toc_keep (l, t, p) = (\<not> (strip t = [] \<or> (\<forall>c \<in> set (strip t). \<not> c_isalpha c)))"
    by (simp add: toc_keep_def list_ex_iff)
  have ent: "\<forall>l t p. e_text (toc_entry (l, t, p) :: 'f entry) = strip t \<and> e_page (toc_entry (l, t, p) :: 'f entry) = p \<and>
                  e_bbox (toc_entry (l, t, p) :: 'f entry) = None \<and>
                  e_level (toc_entry (l, t, p) :: 'f entry) = (if l = 2 then H2 else if l \<ge> 3 then H3 else H1)"
    by (simp add: toc_entry_def toc_level_def)
  have out: "outline (extract_outline_from_pdf fl stem (Inr doc)) = map toc_entry (filter toc_keep (toc doc))"
    by (simp add: r)
  have ttl: "title (extract_outline_from_pdf fl stem (Inr doc)) = initial_title stem doc"
    by (simp add: r)
  have scen: "toc doc = [(1, ''Introduction'', 1), (3, ''Details'', 2)] \<longrightarrow>
            outline (extract_outline_from_pdf fl stem (Inr doc)) =
              [\<lparr> e_level = H1, e_text = ''Introduction'', e_page = 1, e_bbox = None \<rparr>,
               \<lparr> e_level = H3, e_text = ''Details'', e_page = 2, e_bbox = None \<rparr>]"
  proof
    assume t: "toc doc = [(1, ''Introduction'', 1), (3, ''Details'', 2)]"
    show "outline (extract_outline_from_pdf fl stem (Inr doc)) =
              [\<lparr> e_level = H1, e_text = ''Introduction'', e_page = 1, e_bbox = None \<rparr>,
               \<lparr> e_level = H3, e_text = ''Details'', e_page = 2, e_bbox = None \<rparr>]"
      unfolding out t by (rule scenario_A_entries)
  qed
  have cnt: "length (outline (extract_outline_from_pdf fl stem (Inr doc))) =
           length (toc doc) - length (filter (\<lambda>item. \<not> toc_keep item) (toc doc))"
    unfolding out using len by simp
  show ?thesis
    by (intro conjI out ttl cnt keep ent scen)
qed

theorem native_outline_is_mapped_witness:
  "toc toc_doc \<noteq> [] \<and>
   extract_outline_from_pdf exact_ops ''report'' (Inr toc_doc) =
     \<lparr> title = ''Annual Report'',
       outline = [\<lparr> e_level = H1, e_text = ''Introduction'', e_page = 1, e_bbox = None \<rparr>,
                  \<lparr> e_level = H3, e_text = ''Details'', e_page = 2, e_bbox = None \<rparr>] \<rparr>"
proof -
  have h: "toc toc_doc \<noteq> []"
    by (simp add: toc_doc_def)
  have t: "toc toc_doc = [(1, ''Introduction'', 1), (3, ''Details'', 2)]"
    by (simp add: toc_doc_def)
  have i: "initial_title ''report'' toc_doc = ''Annual Report''"
    by code_simp
  note th = native_outline_is_mapped [OF h, of exact_ops "''report''"]
  have o: "outline (extract_outline_from_pdf exact_ops ''report'' (Inr toc_doc)) =
          [\<lparr> e_level = H1, e_text = ''Introduction'', e_page = 1, e_bbox = None \<rparr>,
           \<lparr> e_level = H3, e_text = ''Details'', e_page = 2, e_bbox = None \<rparr>]"
    using th t by blast
  have "title (extract_outline_from_pdf exact_ops ''report'' (Inr toc_doc)) = initial_title ''report'' toc_doc"
    using th by blast
  with o i have "outline (extract_outline_from_pdf exact_ops ''report'' (Inr toc_doc)) =
          [\<lparr> e_level = H1, e_text = ''Introduction'', e_page = 1, e_bbox = None \<rparr>,
           \<lparr> e_level = H3, e_text = ''Details'', e_page = 2, e_bbox = None \<rparr>] \<and>
        title (extract_outline_from_pdf exact_ops ''report'' (Inr toc_doc)) = ''Annual Report''"
    by simp
  then show ?thesis
    using h by (cases "extract_outline_from_pdf exact_ops ''report'' (Inr toc_doc)") simp
qed

section \<open>Documents without text\<close>

lemma strip_Nil: "strip [] = []"
  by (simp add: strip_def)

lemma most_common1_Nil: "most_common1 [] = None"
  by (simp add: most_common1_def counter_def)

text \<open>
  C10, as amended. A document with no table of contents and no span in any text block
  returns at once, without an exception: the outline is empty and the title is the
  stripped metadata title when the document has one that is not blank, and the file
  name's stem otherwise.
\<close>

theorem no_text_gives_empty_outline:
  assumes "toc doc = []" and "doc_spans doc = []"
  shows "try_block fl stem (Inr doc) = Inr \<lparr> title = initial_title stem doc, outline = [] \<rparr> \<and>
         extract_outline_from_pdf fl stem (Inr doc) = \<lparr> title = initial_title stem doc, outline = [] \<rparr> \<and>
         (metadata_title doc = None \<longrightarrow> initial_title stem doc = stem) \<and>
         (\<forall>t. metadata_title doc = Some t \<longrightarrow>
              initial_title stem doc = (if strip t = [] then stem else strip t))"
proof -
  have "estimate_body fl [] [] = fl_lit fl 0"
    by (simp add: estimate_body_def most_common1_Nil)
  then have t: "try_block fl stem (Inr doc) = Inr \<lparr> title = initial_title stem doc, outline = [] \<rparr>"
    using assms by (simp add: try_block_def)
  then have e: "extract_outline_from_pdf fl stem (Inr doc) = \<lparr> title = initial_title stem doc, outline = [] \<rparr>"
    by (simp add: extract_outline_from_pdf_def)
  have n: "metadata_title doc = None \<longrightarrow> initial_title stem doc = stem"
    by (simp add: initial_title_def)
  have s: "\<forall>t. metadata_title doc = Some t \<longrightarrow>
              initial_title stem doc = (if strip t = [] then stem else strip t)"
    by (auto simp: initial_title_def strip_Nil)
  show ?thesis
    by (intro conjI t e n s)
qed

theorem no_text_gives_empty_outline_witness:
  "toc titled_empty_doc = [] \<and> doc_spans titled_empty_doc = [] \<and>
   extract_outline_from_pdf exact_ops ''report'' (Inr titled_empty_doc) = \<lparr> title = ''Annual Report'', outline = [] \<rparr>"
proof -
  have h1: "toc titled_empty_doc = []"
    by (simp add: titled_empty_doc_def)
  have h2: "doc_spans titled_empty_doc = []"
    by code_simp
  have i: "initial_title ''report'' titled_empty_doc = ''Annual Report''"
    by code_simp
  have "extract_outline_from_pdf exact_ops ''report'' (Inr titled_empty_doc) =
          \<lparr> title = initial_title ''report'' titled_empty_doc, outline = [] \<rparr>"
    using no_text_gives_empty_outline [OF h1 h2, of exact_ops "''report''"] by blast
  with h1 h2 i show ?thesis by simp
qed

text \<open>
  C10 as stated asks for the file name's stem as the title of every such document;
  a document with a metadata title and no text keeps its metadata title.
\<close>

theorem no_text_title_from_metadata:
  "toc titled_empty_doc = [] \<and> doc_spans titled_empty_doc = [] \<and>
   extract_outline_from_pdf exact_ops ''report'' (Inr titled_empty_doc) \<noteq> \<lparr> title = ''report'', outline = [] \<rparr>"
  by code_simp

section \<open>Faults and the batch\<close>

lemma process_pdfs_other:
  "stem \<notin> fst ` set pdf_files \<Longrightarrow>
   process_pdfs fl can_write pdf_files output_dir (stem @ ''.json'') = output_dir (stem @ ''.json'')"
proof (induction pdf_files arbitrary: output_dir)
  case Nil
  then show ?case by (simp add: process_pdfs_def)
next
  case (Cons f fs)
  have "process_pdfs fl can_write (f # fs) output_dir (stem @ ''.json'') =
        process_pdfs fl can_write fs (process_one fl can_write f output_dir) (stem @ ''.json'')"
    by (simp add: process_pdfs_def)
  also have "\<dots> = process_one fl can_write f output_dir (stem @ ''.json'')"
    using Cons by simp
  also have "\<dots> = output_dir (stem @ ''.json'')"
    using Cons.prems by (simp add: process_one_def Let_def)
  finally show ?case .
qed

lemma process_pdfs_own:
  "distinct (map fst pdf_files) \<Longrightarrow> (stem, opened) \<in> set pdf_files \<Longrightarrow> can_write (stem @ ''.json'') \<Longrightarrow>
   process_pdfs fl can_write pdf_files output_dir (stem @ ''.json'') =
     Some (extract_outline_from_pdf fl stem opened)"
proof (induction pdf_files arbitrary: output_dir)
  case Nil
  then show ?case by simp
next
  case (Cons f fs)
  have step: "process_pdfs fl can_write (f # fs) output_dir (stem @ ''.json'') =
        process_pdfs fl can_write fs (process_one fl can_write f output_dir) (stem @ ''.json'')"
    by (simp add: process_pdfs_def)
  show ?case
  proof (cases "f = (stem, opened)")
    case True
    then have "stem \<notin> fst ` set fs"
      using Cons.prems(1) by auto
    then have "process_pdfs fl can_write fs (process_one fl can_write f output_dir) (stem @ ''.json'') =
               process_one fl can_write f output_dir (stem @ ''.json'')"
      by (rule process_pdfs_other)
    also have "\<dots> = Some (extract_outline_from_pdf fl stem opened)"
      using True Cons.prems(3) by (simp add: process_one_def Let_def)
    finally show ?thesis using step by simp
  next
    case False
    then have "(stem, opened) \<in> set fs"
      using Cons.prems(2) by simp
    moreover have "distinct (map fst fs)"
      using Cons.prems(1) by simp
    ultimately show ?thesis
      using Cons.IH Cons.prems(3) step by simp
  qed
qed

text \<open>
  C9. An exception that leaves the \<open>try\<close> block, from opening the document on, is
  turned into the error artifact: the title "Processing Error for " followed by the
  stem, and exactly one entry, H1 on page 1, whose text is "Error: " followed by the
  exception's message (the fixed installation hint for an \<open>ImportError\<close>). In a
  batch of files with distinct names, the artifact written for a file is the
  extraction of that file alone, whatever happens to the others.
\<close>

theorem exception_becomes_error_artifact:
  "(try_block fl stem opened = Inl e \<longrightarrow>
      extract_outline_from_pdf fl stem opened =
        \<lparr> title = ''Processing Error for '' @ stem,
          outline = [\<lparr> e_level = H1, e_text = error_text e, e_page = 1, e_bbox = None \<rparr>] \<rparr> \<and>
      ((\<forall>m. e \<noteq> ImportError m) \<longrightarrow> error_text e = ''Error: '' @ exn_str e)) \<and>
   (opened = Inl e \<longrightarrow> try_block fl stem opened = Inl e) \<and>
   (distinct (map fst pdf_files) \<and> (stem', opened') \<in> set pdf_files \<and> can_write (stem' @ ''.json'') \<longrightarrow>
      process_pdfs fl can_write pdf_files output_dir (stem' @ ''.json'') =
        Some (extract_outline_from_pdf fl stem' opened'))"
proof -
  have a: "try_block fl stem opened = Inl e \<longrightarrow>
      extract_outline_from_pdf fl stem opened =
        \<lparr> title = ''Processing Error for '' @ stem,
          outline = [\<lparr> e_level = H1, e_text = error_text e, e_page = 1, e_bbox = None \<rparr>] \<rparr> \<and>
      ((\<forall>m. e \<noteq> ImportError m) \<longrightarrow> error_text e = ''Error: '' @ exn_str e)"
    by (cases e) (simp_all add: extract_outline_from_pdf_def error_artifact_def)
  have b: "opened = Inl e \<longrightarrow> try_block fl stem opened = Inl e"
    by (simp add: try_block_def)
  have c: "distinct (map fst pdf_files) \<and> (stem', opened') \<in> set pdf_files \<and> can_write (stem' @ ''.json'') \<longrightarrow>
      process_pdfs fl can_write pdf_files output_dir (stem' @ ''.json'') =
        Some (extract_outline_from_pdf fl stem' opened')"
    using process_pdfs_own by blast
  show ?thesis
    by (intro conjI a b c)
qed

theorem exception_becomes_error_artifact_witness:
  "try_block exact_ops ''x'' (Inl (OtherException ''cannot open broken document'')) =
     Inl (OtherException ''cannot open broken document'') \<and>
   extract_outline_from_pdf exact_ops ''x'' (Inl (OtherException ''cannot open broken document'')) =
     \<lparr> title = ''Processing Error for x'',
       outline = [\<lparr> e_level = H1, e_text = ''Error: cannot open broken document'', e_page = 1, e_bbox = None \<rparr>] \<rparr> \<and>
   distinct (map fst example_batch) \<and> (''b'', Inr titled_empty_doc) \<in> set example_batch \<and>
   process_pdfs exact_ops (\<lambda>name. True) example_batch Map.empty ''b.json'' =
     Some (extract_outline_from_pdf exact_ops ''b'' (Inr titled_empty_doc))"
proof -
  note th = exception_becomes_error_artifact
    [of exact_ops "''x''" "Inl (OtherException ''cannot open broken document'')"
        "OtherException ''cannot open broken document''" example_batch "''b''" "Inr titled_empty_doc"
        "\<lambda>name. True" Map.empty]
  have t: "try_block exact_ops ''x'' (Inl (OtherException ''cannot open broken document'')) =
           Inl (OtherException ''cannot open broken document'')"
    using th by blast
  have d: "distinct (map fst example_batch)"
    by (simp add: example_batch_def)
  have m: "(''b'', Inr titled_empty_doc) \<in> set example_batch"
    by (simp add: example_batch_def)
  have x: "extract_outline_from_pdf exact_ops ''x'' (Inl (OtherException ''cannot open broken document'')) =
     \<lparr> title = ''Processing Error for '' @ ''x'',
       outline = [\<lparr> e_level = H1, e_text = error_text (OtherException ''cannot open broken document''),
                   e_page = 1, e_bbox = None \<rparr>] \<rparr>"
    using th t by blast
  have p: "process_pdfs exact_ops (\<lambda>name. True) example_batch Map.empty ''b.json'' =
     Some (extract_outline_from_pdf exact_ops ''b'' (Inr titled_empty_doc))"
    using th d m by simp
  show ?thesis
    using t x d m p by simp
qed


section \<open>The second pass\<close>

lemma classify_span_raises: "classify_span fl body_font_size page_num sp = Inl (KeyError ''text'')"
  by (simp add: classify_span_def rawdict_span_text_def)

lemma classify_all_eq:
  "classify_all fl body_font_size xs = (if xs = [] then Inr [] else Inl (KeyError ''text''))"
proof (cases xs)
  case Nil
  then show ?thesis by simp
next
  case (Cons x rest)
  obtain page_num sp where "x = (page_num, sp)" by (cases x)
  with Cons show ?thesis by (simp add: classify_span_raises)
qed

lemma record_span_Inl: "record_span fl st sp = Inl e \<Longrightarrow> e = TypeError type_error_msg"
  by (auto simp: record_span_def is_bold_eq Let_def split: if_splits)

lemma collect_stats_Inl: "collect_stats fl st sps = Inl e \<Longrightarrow> e = TypeError type_error_msg \<and> sps \<noteq> []"
proof (induction sps arbitrary: st)
  case Nil
  then show ?case by simp
next
  case (Cons sp sps)
  show ?case
  proof (cases "record_span fl st sp")
    case (Inl e')
    with Cons.prems have "e = e'" by simp
    with Inl show ?thesis using record_span_Inl by blast
  next
    case (Inr st')
    with Cons.prems have "collect_stats fl st' sps = Inl e" by simp
    then show ?thesis using Cons.IH by blast
  qed
qed

lemma doc_spans_pages: "doc_spans doc \<noteq> [] \<Longrightarrow> pages doc \<noteq> []"
  by (auto simp: doc_spans_def)

text \<open>
  What the \<open>try\<close> block does without a table of contents: the \<open>TypeError\<close> of the
  first pass, the \<open>KeyError\<close> of the second, or a result with an empty outline.
\<close>

lemma try_block_heuristic:
  assumes "toc doc = []"
  shows "(try_block fl stem (Inr doc) = Inl (TypeError type_error_msg) \<and> doc_spans doc \<noteq> []) \<or>
         (try_block fl stem (Inr doc) = Inl (KeyError ''text'') \<and> doc_spans doc \<noteq> []) \<or>
         try_block fl stem (Inr doc) = Inr \<lparr> title = initial_title stem doc, outline = [] \<rparr>"
proof (cases "collect_stats fl ([], []) (map snd (doc_spans doc))")
  case (Inl e)
  then have "e = TypeError type_error_msg \<and> map snd (doc_spans doc) \<noteq> []"
    by (rule collect_stats_Inl)
  then show ?thesis using assms Inl by (simp add: try_block_def)
next
  case (Inr st)
  obtain font_styles all_sizes where st: "st = (font_styles, all_sizes)" by (cases st)
  show ?thesis
  proof (cases "estimate_body fl font_styles all_sizes = fl_lit fl 0")
    case True
    then show ?thesis using assms Inr st by (simp add: try_block_def)
  next
    case False
    then show ?thesis using assms Inr st by (simp add: try_block_def classify_all_eq)
  qed
qed


lemma heuristic_entries:
  assumes "toc doc = []" and "e \<in> set (outline (extract_outline_from_pdf fl stem (Inr doc)))"
  shows "(e = \<lparr> e_level = H1, e_text = ''Error: '' @ type_error_msg, e_page = 1, e_bbox = None \<rparr> \<or>
          e = \<lparr> e_level = H1, e_text = ''Error: '' @ exn_str (KeyError ''text''), e_page = 1, e_bbox = None \<rparr>) \<and>
         pages doc \<noteq> []"
  using try_block_heuristic [OF assms(1), of fl stem] assms(2) doc_spans_pages [of doc]
  by (auto simp: extract_outline_from_pdf_def error_artifact_def)


lemma headings_doc_result:
  "extract_outline_from_pdf exact_ops ''report'' (Inr headings_doc) =
     \<lparr> title = ''Processing Error for report'',
       outline = [\<lparr> e_level = H1, e_text = ''Error: '' @ exn_str (KeyError ''text''), e_page = 1, e_bbox = None \<rparr>] \<rparr>"
  by code_simp

section \<open>Classification and the noise filter\<close>

lemma classify_fragment_Some:
  assumes "classify_fragment fl body_font_size page_num sp raw_text = Inr (Some c)"
  shows "\<not> is_noise (strip raw_text) \<and> c_text c = strip raw_text \<and> c_page c = int page_num + 1 \<and>
         c_bbox c = span_bbox sp \<and> is_bold sp = Inr True \<and>
         heading_level fl body_font_size (fl_round1 fl (span_size sp)) True (strip raw_text) = Some (c_level c)"
  using assms
  by (auto simp: classify_fragment_def is_bold_eq Let_def split: if_splits option.splits)

lemma is_noise_figure: "is_noise ''Figure 3: results''"
  by code_simp

lemma type_error_text_not_noise: "\<not> is_noise (''Error: '' @ type_error_msg)"
  by code_simp

lemma key_error_text_not_noise: "\<not> is_noise (''Error: '' @ exn_str (KeyError ''text''))"
  by code_simp

text \<open>
  C7. A text that, stripped, is empty, or shorter than 5 characters, or numeric, or a
  number and a period, or a Roman numeral and a period, or contains the literal
  "G.MAMATHA, CET, CBIT", or begins, in any case, with figure, table, formula, example,
  g.mamatha or source:, never yields a candidate in the loop body, whatever the size
  and face of its span. No span of the second pass is classified at all, and no entry
  of an outline returned on the heuristic path has a filtered text; none is
  "Figure 3: results", which the filter rejects.
\<close>

theorem noise_is_never_a_heading:
  "(t = strip raw_text \<and>
    (t = [] \<or> length t < 5 \<or> isnumeric t \<or> match_number_period t \<or> match_roman_period t \<or>
     contains t ''G.MAMATHA, CET, CBIT'' \<or>
     (\<exists>p \<in> set [''figure'', ''table'', ''formula'', ''example'', ''g.mamatha'', ''source:''].
         startswith (lower t) p)) \<longrightarrow>
    (\<forall>c. classify_fragment fl body_font_size page_num sp raw_text \<noteq> Inr (Some c))) \<and>
   (\<forall>c. classify_span fl body_font_size page_num sp \<noteq> Inr (Some c)) \<and>
   (toc doc = [] \<and> e \<in> set (outline (extract_outline_from_pdf fl stem (Inr doc))) \<longrightarrow>
      \<not> is_noise (e_text e) \<and> e_text e \<noteq> ''Figure 3: results'') \<and>
   is_noise ''Figure 3: results''"
proof -
  have a: "t = strip raw_text \<and>
    (t = [] \<or> length t < 5 \<or> isnumeric t \<or> match_number_period t \<or> match_roman_period t \<or>
     contains t ''G.MAMATHA, CET, CBIT'' \<or>
     (\<exists>p \<in> set [''figure'', ''table'', ''formula'', ''example'', ''g.mamatha'', ''source:''].
         startswith (lower t) p)) \<longrightarrow>
    (\<forall>c. classify_fragment fl body_font_size page_num sp raw_text \<noteq> Inr (Some c))"
  proof (intro impI, elim conjE)
    assume t: "t = strip raw_text" and
      h: "t = [] \<or> length t < 5 \<or> isnumeric t \<or> match_number_period t \<or> match_roman_period t \<or>
          contains t ''G.MAMATHA, CET, CBIT'' \<or>
          (\<exists>p \<in> set [''figure'', ''table'', ''formula'', ''example'', ''g.mamatha'', ''source:''].
              startswith (lower t) p)"
    from h have "is_noise t"
      unfolding is_noise_def noise_prefixes_def list_ex_iff .
    then show "\<forall>c. classify_fragment fl body_font_size page_num sp raw_text \<noteq> Inr (Some c)"
      using classify_fragment_Some [of fl body_font_size page_num sp raw_text] t by blast
  qed
  have b: "\<forall>c. classify_span fl body_font_size page_num sp \<noteq> Inr (Some c)"
    by (simp add: classify_span_raises)
  have c: "toc doc = [] \<and> e \<in> set (outline (extract_outline_from_pdf fl stem (Inr doc))) \<longrightarrow>
      \<not> is_noise (e_text e) \<and> e_text e \<noteq> ''Figure 3: results''"
  proof (intro impI, elim conjE)
    assume "toc doc = []" and "e \<in> set (outline (extract_outline_from_pdf fl stem (Inr doc)))"
    then have "e_text e = ''Error: '' @ type_error_msg \<or> e_text e = ''Error: '' @ exn_str (KeyError ''text'')"
      using heuristic_entries [of doc e fl stem] by auto
    then have "\<not> is_noise (e_text e)"
      using type_error_text_not_noise key_error_text_not_noise by auto
    then show "\<not> is_noise (e_text e) \<and> e_text e \<noteq> ''Figure 3: results''"
      using is_noise_figure by auto
  qed
  show ?thesis
    by (intro conjI a b c is_noise_figure)
qed

theorem noise_is_never_a_heading_witness:
  "strip ''  Figure 3: results '' = ''Figure 3: results'' \<and>
   startswith (lower ''Figure 3: results'') ''figure'' \<and>
   (\<forall>c. classify_fragment exact_ops 10 0 figure_span ''  Figure 3: results '' \<noteq> Inr (Some c)) \<and>
   toc headings_doc = [] \<and>
   \<lparr> e_level = H1, e_text = ''Error: '' @ exn_str (KeyError ''text''), e_page = 1, e_bbox = None \<rparr>
     \<in> set (outline (extract_outline_from_pdf exact_ops ''report'' (Inr headings_doc))) \<and>
   \<not> is_noise (''Error: '' @ exn_str (KeyError ''text''))"
proof -
  note th = noise_is_never_a_heading
    [of "''Figure 3: results''" "''  Figure 3: results ''" exact_ops 10 0 figure_span headings_doc
        "\<lparr> e_level = H1, e_text = ''Error: '' @ exn_str (KeyError ''text''), e_page = 1, e_bbox = None \<rparr>"
        "''report''"]
  have s: "strip ''  Figure 3: results '' = ''Figure 3: results''"
    by code_simp
  have p: "startswith (lower ''Figure 3: results'') ''figure''"
    by code_simp
  have c: "\<forall>c. classify_fragment exact_ops 10 0 figure_span ''  Figure 3: results '' \<noteq> Inr (Some c)"
    using th s p by simp
  have t: "toc headings_doc = []"
    by (simp add: headings_doc_def)
  have m: "\<lparr> e_level = H1, e_text = ''Error: '' @ exn_str (KeyError ''text''), e_page = 1, e_bbox = None \<rparr>
     \<in> set (outline (extract_outline_from_pdf exact_ops ''report'' (Inr headings_doc)))"
    by (simp add: headings_doc_result)
  have n: "\<not> is_noise (e_text \<lparr> e_level = H1, e_text = ''Error: '' @ exn_str (KeyError ''text''), e_page = 1,
                                 e_bbox = (None :: rat bbox option) \<rparr>)"
    using th t m by blast
  show ?thesis
    using s p c t m n by simp
qed







section \<open>Reading order and deduplication\<close>

lemma set_dedupe: "set (dedupe seen_entries cs) \<subseteq> set cs"
  by (induction cs arbitrary: seen_entries) auto

lemma dedupe_keys_fresh: "c \<in> set (dedupe seen_entries cs) \<Longrightarrow> unique_key c \<notin> seen_entries"
  by (induction cs arbitrary: seen_entries) (auto split: if_splits)

lemma distinct_dedupe: "distinct (map unique_key (dedupe seen_entries cs))"
proof (induction cs arbitrary: seen_entries)
  case Nil
  then show ?case by simp
next
  case (Cons a cs)
  show ?case
  proof (cases "unique_key a \<in> seen_entries")
    case True
    then show ?thesis using Cons.IH by simp
  next
    case False
    have "unique_key a \<notin> unique_key ` set (dedupe (insert (unique_key a) seen_entries) cs)"
      using dedupe_keys_fresh by fastforce
    then show ?thesis using False Cons.IH by simp
  qed
qed

lemma dedupe_first_occurrence:
  "c \<in> set (dedupe seen_entries cs) \<Longrightarrow> find (\<lambda>x. unique_key x = unique_key c) cs = Some c"
proof (induction cs arbitrary: seen_entries)
  case Nil
  then show ?case by simp
next
  case (Cons a cs)
  show ?case
  proof (cases "unique_key a = unique_key c")
    case True
    have "c = a"
    proof (cases "unique_key a \<in> seen_entries")
      case True
      with Cons.prems have "c \<in> set (dedupe seen_entries cs)" by simp
      then have "unique_key c \<notin> seen_entries" by (rule dedupe_keys_fresh)
      with True \<open>unique_key a = unique_key c\<close> show ?thesis by simp
    next
      case False
      show ?thesis
      proof (rule ccontr)
        assume "c \<noteq> a"
        with False Cons.prems have "c \<in> set (dedupe (insert (unique_key a) seen_entries) cs)" by simp
        then have "unique_key c \<notin> insert (unique_key a) seen_entries" by (rule dedupe_keys_fresh)
        with \<open>unique_key a = unique_key c\<close> show False by simp
      qed
    qed
    with True show ?thesis by simp
  next
    case False
    then have "c \<in> set (dedupe seen_entries cs) \<or> c \<in> set (dedupe (insert (unique_key a) seen_entries) cs)"
      using Cons.prems by (auto split: if_splits)
    then have "find (\<lambda>x. unique_key x = unique_key c) cs = Some c"
      using Cons.IH by blast
    with False show ?thesis by simp
  qed
qed

lemma dedupe_key_order:
  "map unique_key (dedupe seen_entries cs) =
   filter (\<lambda>k. k \<notin> seen_entries) (first_occurrences (map unique_key cs))"
proof (induction cs arbitrary: seen_entries)
  case Nil
  then show ?case by simp
next
  case (Cons a cs)
  show ?case
  proof (cases "unique_key a \<in> seen_entries")
    case True
    have "filter (\<lambda>k. k \<notin> seen_entries) (filter (\<lambda>y. y \<noteq> unique_key a) (first_occurrences (map unique_key cs))) =
          filter (\<lambda>k. k \<notin> seen_entries) (first_occurrences (map unique_key cs))"
      using True by (auto intro: filter_cong)
    then show ?thesis using True Cons.IH by simp
  next
    case False
    have "filter (\<lambda>k. k \<notin> insert (unique_key a) seen_entries) (first_occurrences (map unique_key cs)) =
          filter (\<lambda>k. k \<notin> seen_entries) (filter (\<lambda>y. y \<noteq> unique_key a) (first_occurrences (map unique_key cs)))"
      by (auto intro: filter_cong)
    then show ?thesis using False Cons.IH by simp
  qed
qed

lemma sorted_dedupe: "sorted (map f cs) \<Longrightarrow> sorted (map f (dedupe seen_entries cs))"
proof (induction cs arbitrary: seen_entries)
  case Nil
  then show ?case by simp
next
  case (Cons a cs)
  have "\<forall>c \<in> set (dedupe (insert (unique_key a) seen_entries) cs). f a \<le> f c"
    using Cons.prems set_dedupe by fastforce
  then show ?case using Cons by simp
qed

lemma sorted_position_iff:
  "sorted (map sort_position cs) =
   sorted_wrt (\<lambda>a b. c_page a < c_page b \<or> (c_page a = c_page b \<and> fst (snd (c_bbox a)) \<le> fst (snd (c_bbox b)))) cs"
  by (induction cs) (auto simp: sort_position_def less_eq_prod_def)

lemma heuristic_output_cases:
  assumes "toc doc = []"
  shows "outline (extract_outline_from_pdf fl stem (Inr doc)) = [] \<or>
         (\<exists>m. outline (extract_outline_from_pdf fl stem (Inr doc)) =
                 [\<lparr> e_level = H1, e_text = m, e_page = 1, e_bbox = None \<rparr>] \<and> pages doc \<noteq> [])"
  using try_block_heuristic [OF assms, of fl stem] doc_spans_pages [of doc]
  by (auto simp: extract_outline_from_pdf_def error_artifact_def)

text \<open>
  C8. The candidates of a document are sorted stably by page and then by the \<open>y0\<close> of
  their bounding box, and a candidate is kept when no earlier one in that order has
  its key (level, lowercased text, page). So the kept candidates are non-decreasing in
  page and, on one page, in vertical position; their keys are the distinct keys of the
  sorted candidates in the order of their first occurrence, and each kept candidate
  is the first with its key. A candidate of page number \<open>page_num\<close> has the page
  \<open>page_num + 1\<close>, between 1 and the number of pages, and the \<open>y0\<close> of its span. Every
  outline returned on the heuristic path is non-decreasing in page, has pages between
  1 and the number of pages, and has no two entries with the same key.
\<close>

theorem outline_in_reading_order:
  "sorted (map sort_position (sort_key sort_position cands)) \<and>
   (\<forall>k. filter (\<lambda>c. sort_position c = k) (sort_key sort_position cands) =
        filter (\<lambda>c. sort_position c = k) cands) \<and>
   sorted_wrt (\<lambda>a b. c_page a < c_page b \<or>
                      (c_page a = c_page b \<and> fst (snd (c_bbox a)) \<le> fst (snd (c_bbox b))))
              (sequence cands) \<and>
   map unique_key (sequence cands) = first_occurrences (map unique_key (sort_key sort_position cands)) \<and>
   (\<forall>c \<in> set (sequence cands).
        find (\<lambda>x. unique_key x = unique_key c) (sort_key sort_position cands) = Some c) \<and>
   distinct (map (\<lambda>c. (c_level c, lower (c_text c), c_page c)) (sequence cands)) \<and>
   set (sequence cands) \<subseteq> set cands \<and>
   (classify_fragment fl body_font_size page_num sp raw_text = Inr (Some c) \<and> page_num < length (pages doc) \<longrightarrow>
      1 \<le> c_page c \<and> c_page c \<le> int (length (pages doc)) \<and> sort_position c = (int page_num + 1, fst (snd (span_bbox sp)))) \<and>
   (toc doc = [] \<longrightarrow>
      sorted (map e_page (outline (extract_outline_from_pdf fl stem (Inr doc)))) \<and>
      distinct (map (\<lambda>e. (e_level e, lower (e_text e), e_page e)) (outline (extract_outline_from_pdf fl stem (Inr doc)))) \<and>
      (\<forall>e \<in> set (outline (extract_outline_from_pdf fl stem (Inr doc))).
          1 \<le> e_page e \<and> e_page e \<le> int (length (pages doc))))"
proof -
  have s1: "sorted (map sort_position (sort_key sort_position cands))"
    by (rule sorted_sort_key)
  have s2: "\<forall>k. filter (\<lambda>c. sort_position c = k) (sort_key sort_position cands) =
        filter (\<lambda>c. sort_position c = k) cands"
    by (simp add: sort_key_stable)
  have "sorted (map sort_position (sequence cands))"
    unfolding sequence_def by (rule sorted_dedupe) (rule sorted_sort_key)
  then have s3: "sorted_wrt (\<lambda>a b. c_page a < c_page b \<or>
                      (c_page a = c_page b \<and> fst (snd (c_bbox a)) \<le> fst (snd (c_bbox b))))
              (sequence cands)"
    by (simp add: sorted_position_iff)
  have s4: "map unique_key (sequence cands) = first_occurrences (map unique_key (sort_key sort_position cands))"
    by (simp add: sequence_def dedupe_key_order)
  have s5: "\<forall>c \<in> set (sequence cands).
        find (\<lambda>x. unique_key x = unique_key c) (sort_key sort_position cands) = Some c"
    unfolding sequence_def using dedupe_first_occurrence by blast
  have "distinct (map unique_key (sequence cands))"
    unfolding sequence_def by (rule distinct_dedupe)
  then have s6: "distinct (map (\<lambda>c. (c_level c, lower (c_text c), c_page c)) (sequence cands))"
    by (simp add: unique_key_def [abs_def])
  have s7: "set (sequence cands) \<subseteq> set cands"
    using set_dedupe [of "{}" "sort_key sort_position cands"] by (simp add: sequence_def)
  have s8: "classify_fragment fl body_font_size page_num sp raw_text = Inr (Some c) \<and> page_num < length (pages doc) \<longrightarrow>
      1 \<le> c_page c \<and> c_page c \<le> int (length (pages doc)) \<and> sort_position c = (int page_num + 1, fst (snd (span_bbox sp)))"
  proof (intro impI, elim conjE)
    assume h: "classify_fragment fl body_font_size page_num sp raw_text = Inr (Some c)" and n: "page_num < length (pages doc)"
    from classify_fragment_Some [OF h] have "c_page c = int page_num + 1" and "c_bbox c = span_bbox sp"
      by simp_all
    then show "1 \<le> c_page c \<and> c_page c \<le> int (length (pages doc)) \<and>
               sort_position c = (int page_num + 1, fst (snd (span_bbox sp)))"
      using n by (simp add: sort_position_def)
  qed
  have s9: "toc doc = [] \<longrightarrow>
      sorted (map e_page (outline (extract_outline_from_pdf fl stem (Inr doc)))) \<and>
      distinct (map (\<lambda>e. (e_level e, lower (e_text e), e_page e)) (outline (extract_outline_from_pdf fl stem (Inr doc)))) \<and>
      (\<forall>e \<in> set (outline (extract_outline_from_pdf fl stem (Inr doc))).
          1 \<le> e_page e \<and> e_page e \<le> int (length (pages doc)))"
  proof
    assume t: "toc doc = []"
    from heuristic_output_cases [OF t, of fl stem] show
      "sorted (map e_page (outline (extract_outline_from_pdf fl stem (Inr doc)))) \<and>
       distinct (map (\<lambda>e. (e_level e, lower (e_text e), e_page e)) (outline (extract_outline_from_pdf fl stem (Inr doc)))) \<and>
       (\<forall>e \<in> set (outline (extract_outline_from_pdf fl stem (Inr doc))).
          1 \<le> e_page e \<and> e_page e \<le> int (length (pages doc)))"
    proof
      assume "outline (extract_outline_from_pdf fl stem (Inr doc)) = []"
      then show ?thesis by simp
    next
      assume "\<exists>m. outline (extract_outline_from_pdf fl stem (Inr doc)) =
                 [\<lparr> e_level = H1, e_text = m, e_page = 1, e_bbox = None \<rparr>] \<and> pages doc \<noteq> []"
      then obtain m where o: "outline (extract_outline_from_pdf fl stem (Inr doc)) =
                 [\<lparr> e_level = H1, e_text = m, e_page = 1, e_bbox = None \<rparr>]" and p: "pages doc \<noteq> []"
        by blast
      from p have "1 \<le> int (length (pages doc))"
        by (cases "pages doc") simp_all
      then show ?thesis by (simp add: o)
    qed
  qed
  show ?thesis
    by (intro conjI s1 s2 s3 s4 s5 s6 s7 s8 s9)
qed

theorem outline_in_reading_order_witness:
  "map unique_key (sequence example_candidates) =
     [(H1, ''project overview'', 1), (H3, ''detailed findings'', 1), (H2, ''methods'', 2)] \<and>
   find (\<lambda>x. unique_key x = (H1, ''project overview'', 1)) (sort_key sort_position example_candidates) =
     Some \<lparr> c_level = H1, c_text = ''PROJECT OVERVIEW'', c_page = 1, c_bbox = (72, 40, 300, 58) \<rparr> \<and>
   classify_fragment exact_ops 10 0 (example_span ''Project Overview'' ''Arial-Bold'' 20 18 100) ''Project Overview'' =
     Inr (Some \<lparr> c_level = H1, c_text = ''Project Overview'', c_page = 1, c_bbox = (72, 100, 300, 118) \<rparr>) \<and>
   (0 :: nat) < length (pages headings_doc) \<and>
   sort_position \<lparr> c_level = H1, c_text = ''Project Overview'', c_page = 1, c_bbox = (72, 100, 300, 118 :: rat) \<rparr> =
     (1, 100) \<and>
   toc headings_doc = [] \<and>
   \<lparr> e_level = H1, e_text = ''Error: '' @ exn_str (KeyError ''text''), e_page = 1, e_bbox = None \<rparr>
     \<in> set (outline (extract_outline_from_pdf exact_ops ''report'' (Inr headings_doc))) \<and>
   (1 :: int) \<le> int (length (pages headings_doc))"
proof -
  note th = outline_in_reading_order
    [of example_candidates exact_ops 10 0 "example_span ''Project Overview'' ''Arial-Bold'' 20 18 100"
        "''Project Overview''"
        "\<lparr> c_level = H1, c_text = ''Project Overview'', c_page = 1, c_bbox = (72, 100, 300, 118) \<rparr>"
        headings_doc "''report''"]
  have f: "first_occurrences (map unique_key (sort_key sort_position example_candidates)) =
     [(H1, ''project overview'', 1), (H3, ''detailed findings'', 1), (H2, ''methods'', 2)]"
    by code_simp
  have k: "map unique_key (sequence example_candidates) =
     [(H1, ''project overview'', 1), (H3, ''detailed findings'', 1), (H2, ''methods'', 2)]"
    using th f by simp
  have m: "\<lparr> c_level = H1, c_text = ''PROJECT OVERVIEW'', c_page = 1, c_bbox = (72, 40, 300, 58) \<rparr>
           \<in> set (sequence example_candidates)"
    by code_simp
  have u: "unique_key \<lparr> c_level = H1, c_text = ''PROJECT OVERVIEW'', c_page = 1, c_bbox = (72, 40, 300, 58 :: rat) \<rparr> =
           (H1, ''project overview'', 1)"
    by code_simp
  have "find (\<lambda>x. unique_key x = unique_key \<lparr> c_level = H1, c_text = ''PROJECT OVERVIEW'', c_page = 1,
                                                c_bbox = (72, 40, 300, 58 :: rat) \<rparr>)
             (sort_key sort_position example_candidates) =
     Some \<lparr> c_level = H1, c_text = ''PROJECT OVERVIEW'', c_page = 1, c_bbox = (72, 40, 300, 58) \<rparr>"
    using th m by blast
  then have fi: "find (\<lambda>x. unique_key x = (H1, ''project overview'', 1)) (sort_key sort_position example_candidates) =
     Some \<lparr> c_level = H1, c_text = ''PROJECT OVERVIEW'', c_page = 1, c_bbox = (72, 40, 300, 58) \<rparr>"
    by (simp only: u)
  have cf: "classify_fragment exact_ops 10 0 (example_span ''Project Overview'' ''Arial-Bold'' 20 18 100) ''Project Overview'' =
     Inr (Some \<lparr> c_level = H1, c_text = ''Project Overview'', c_page = 1, c_bbox = (72, 100, 300, 118) \<rparr>)"
    by code_simp
  have n: "(0 :: nat) < length (pages headings_doc)"
    by (simp add: headings_doc_def)
  have sp: "sort_position \<lparr> c_level = H1, c_text = ''Project Overview'', c_page = 1, c_bbox = (72, 100, 300, 118 :: rat) \<rparr> =
     (int 0 + 1, fst (snd (span_bbox (example_span ''Project Overview'' ''Arial-Bold'' 20 18 100))))"
    using th cf n by blast
  have sp': "sort_position \<lparr> c_level = H1, c_text = ''Project Overview'', c_page = 1, c_bbox = (72, 100, 300, 118 :: rat) \<rparr> =
     (1, 100)"
    using sp by (simp add: example_span_def)
  have t: "toc headings_doc = []"
    by (simp add: headings_doc_def)
  have e: "\<lparr> e_level = H1, e_text = ''Error: '' @ exn_str (KeyError ''text''), e_page = 1, e_bbox = None \<rparr>
     \<in> set (outline (extract_outline_from_pdf exact_ops ''report'' (Inr headings_doc)))"
    by (simp add: headings_doc_result)
  have "1 \<le> e_page \<lparr> e_level = H1, e_text = ''Error: '' @ exn_str (KeyError ''text''), e_page = 1,
                       e_bbox = (None :: rat bbox option) \<rparr> \<and>
        e_page \<lparr> e_level = H1, e_text = ''Error: '' @ exn_str (KeyError ''text''), e_page = 1,
                 e_bbox = (None :: rat bbox option) \<rparr> \<le> int (length (pages headings_doc))"
    using th t e by blast
  then have pg: "(1 :: int) \<le> int (length (pages headings_doc))"
    by simp
  show ?thesis
    by (intro conjI k fi cf n sp' t e pg)
qed

section \<open>The body font size\<close>

lemma set_first_occurrences: "set (first_occurrences xs) = set xs"
  by (induction xs) auto

lemma distinct_first_occurrences: "distinct (first_occurrences xs)"
  by (induction xs) (auto simp: set_first_occurrences)

lemma first_occurrences_snoc:
  "first_occurrences (xs @ [x]) = (if x \<in> set xs then first_occurrences xs else first_occurrences xs @ [x])"
  by (induction xs) auto

lemma first_occurrences_split:
  "m \<notin> set pre \<Longrightarrow> \<exists>rest. first_occurrences (pre @ m # post) = first_occurrences pre @ m # rest"
  by (induction pre) auto

lemma map_of_keyed: "map_of (map (\<lambda>k. (k, g k)) ks) x = (if x \<in> set ks then Some (g x) else None)"
  by (induction ks) auto

lemma dict_set_new: "x \<notin> set ks \<Longrightarrow> dict_set (map (\<lambda>k. (k, g k)) ks) x v = map (\<lambda>k. (k, g k)) ks @ [(x, v)]"
  by (induction ks) auto

lemma dict_set_old:
  "x \<in> set ks \<Longrightarrow> distinct ks \<Longrightarrow>
   dict_set (map (\<lambda>k. (k, g k)) ks) x v = map (\<lambda>k. (k, if k = x then v else g k)) ks"
  by (induction ks) auto

lemma counter_snoc:
  "counter (xs @ [x]) = dict_set (counter xs) x (case map_of (counter xs) x of None \<Rightarrow> 1 | Some n \<Rightarrow> n + 1)"
  by (simp add: counter_def)

lemma counter_eq: "counter xs = map (\<lambda>k. (k, count_list xs k)) (first_occurrences xs)"
proof (induction xs rule: rev_induct)
  case Nil
  then show ?case by (simp add: counter_def)
next
  case (snoc x xs)
  show ?case
  proof (cases "x \<in> set xs")
    case True
    then have "counter (xs @ [x]) =
               map (\<lambda>k. (k, if k = x then count_list xs x + 1 else count_list xs k)) (first_occurrences xs)"
      by (simp add: counter_snoc snoc.IH map_of_keyed set_first_occurrences dict_set_old
          distinct_first_occurrences)
    also have "\<dots> = map (\<lambda>k. (k, count_list (xs @ [x]) k)) (first_occurrences xs)"
      by simp
    finally show ?thesis using True by (simp add: first_occurrences_snoc)
  next
    case False
    then have "counter (xs @ [x]) = map (\<lambda>k. (k, count_list xs k)) (first_occurrences xs) @ [(x, 1)]"
      by (simp add: counter_snoc snoc.IH map_of_keyed set_first_occurrences dict_set_new)
    also have "\<dots> = map (\<lambda>k. (k, count_list (xs @ [x]) k)) (first_occurrences xs @ [x])"
      using False by (auto simp: set_first_occurrences)
    finally show ?thesis using False by (simp add: first_occurrences_snoc)
  qed
qed

lemma first_max_decomp:
  "\<exists>pre post. best # kvs = pre @ first_max best kvs # post \<and>
     (\<forall>kv \<in> set pre. snd kv < snd (first_max best kvs)) \<and>
     (\<forall>kv \<in> set post. snd kv \<le> snd (first_max best kvs))"
proof (induction kvs arbitrary: best)
  case Nil
  have "[best] = [] @ first_max best [] # []" by simp
  then show ?case by fastforce
next
  case (Cons kv kvs)
  show ?case
  proof (cases "snd best < snd kv")
    case True
    then have fm: "first_max best (kv # kvs) = first_max kv kvs" by simp
    from Cons.IH [of kv] obtain pre post where
      d: "kv # kvs = pre @ first_max kv kvs # post" and
      p: "\<forall>x \<in> set pre. snd x < snd (first_max kv kvs)" and
      q: "\<forall>x \<in> set post. snd x \<le> snd (first_max kv kvs)"
      by blast
    have "snd kv \<le> snd (first_max kv kvs)"
    proof (cases pre)
      case Nil
      with d have "first_max kv kvs = kv" by (metis append_Nil list.inject)
      then show ?thesis by simp
    next
      case (Cons a pre')
      with d have "kv \<in> set pre" by simp
      with p show ?thesis by fastforce
    qed
    with True have "snd best < snd (first_max kv kvs)" by simp
    with p have "\<forall>x \<in> set (best # pre). snd x < snd (first_max kv kvs)" by simp
    moreover have "best # kv # kvs = (best # pre) @ first_max kv kvs # post"
      using d by simp
    ultimately show ?thesis
      unfolding fm using q by blast
  next
    case False
    then have fm: "first_max best (kv # kvs) = first_max best kvs" by simp
    from Cons.IH [of best] obtain pre post where
      d: "best # kvs = pre @ first_max best kvs # post" and
      p: "\<forall>x \<in> set pre. snd x < snd (first_max best kvs)" and
      q: "\<forall>x \<in> set post. snd x \<le> snd (first_max best kvs)"
      by blast
    show ?thesis
    proof (cases pre)
      case Nil
      with d have b: "first_max best kvs = best" and k: "kvs = post" by (metis append_Nil list.inject)+
      have "best # kv # kvs = [] @ first_max best kvs # (kv # post)"
        using b k by simp
      moreover have "\<forall>x \<in> set (kv # post). snd x \<le> snd (first_max best kvs)"
        using q False b by auto
      ultimately show ?thesis
        unfolding fm by (metis empty_iff list.set(1))
    next
      case (Cons a pre')
      with d have a: "a = best" and k: "kvs = pre' @ first_max best kvs # post" by (metis append_Cons list.inject)+
      have "snd best < snd (first_max best kvs)"
        using p Cons a by simp
      with False have "snd kv < snd (first_max best kvs)" by simp
      with p Cons a have "\<forall>x \<in> set (best # kv # pre'). snd x < snd (first_max best kvs)" by simp
      moreover have "best # kv # kvs = (best # kv # pre') @ first_max best kvs # post"
        using k by simp
      ultimately show ?thesis
        unfolding fm using q by blast
    qed
  qed
qed

lemma most_common1_first_most_frequent:
  assumes "xs \<noteq> []"
  shows "\<exists>m. most_common1 xs = Some m \<and> first_most_frequent xs m"
proof -
  let ?g = "count_list xs"
  let ?f = "\<lambda>k. (k, ?g k)"
  from assms obtain k0 ks where fo: "first_occurrences xs = k0 # ks"
    by (cases xs) auto
  define r where "r = first_max (?f k0) (map ?f ks)"
  have mc: "most_common1 xs = Some (fst r)"
    by (simp add: most_common1_def counter_eq fo r_def)
  from first_max_decomp [of "?f k0" "map ?f ks"] obtain pre post where
    d: "?f k0 # map ?f ks = pre @ r # post" and
    p: "\<forall>kv \<in> set pre. snd kv < snd r" and
    q: "\<forall>kv \<in> set post. snd kv \<le> snd r"
    unfolding r_def by blast
  have d': "map ?f (first_occurrences xs) = pre @ r # post"
    using d fo by simp
  then obtain kpre m kpost where
    ks: "first_occurrences xs = kpre @ m # kpost" and
    pre: "pre = map ?f kpre" and r: "r = ?f m" and post: "post = map ?f kpost"
    by (auto simp: map_eq_append_conv map_eq_Cons_conv)
  have lt: "\<forall>k \<in> set kpre. ?g k < ?g m"
    using p pre r by simp
  have le: "\<forall>k \<in> set kpost. ?g k \<le> ?g m"
    using q post r by simp
  have all: "\<forall>s \<in> set xs. ?g s \<le> ?g m"
  proof
    fix s assume "s \<in> set xs"
    then have "s \<in> set (kpre @ m # kpost)"
      using ks set_first_occurrences [of xs] by simp
    then show "?g s \<le> ?g m"
      using lt le by fastforce
  qed
  have "m \<in> set xs"
    using ks set_first_occurrences [of xs] by auto
  then obtain xpre xpost where x: "xs = xpre @ m # xpost" and nm: "m \<notin> set xpre"
    by (meson split_list_first)
  from first_occurrences_split [OF nm, of xpost] obtain rest where
    "first_occurrences xs = first_occurrences xpre @ m # rest"
    using x by auto
  moreover have "distinct (kpre @ m # kpost)"
    using ks distinct_first_occurrences [of xs] by simp
  ultimately have "kpre = first_occurrences xpre"
    using ks by (metis append_Cons_eq_iff distinct.simps(2) distinct_append not_distinct_conv_prefix)
  then have "\<forall>s \<in> set xpre. ?g s < ?g m"
    using lt by (simp add: set_first_occurrences)
  then have "first_most_frequent xs m"
    unfolding first_most_frequent_def using x nm all by blast
  then show ?thesis using mc r by simp
qed

lemma refine_body_below:
  "\<forall>it \<in> set items. normal (snd it) \<le> fst acc \<Longrightarrow> refine_body acc items = acc"
  by (induction items arbitrary: acc) (auto simp: not_less [symmetric])

lemma refine_body_pre:
  "\<forall>it \<in> set pre. normal (snd it) < n \<Longrightarrow> fst acc < n \<Longrightarrow>
   \<exists>acc'. refine_body acc (pre @ rest) = refine_body acc' rest \<and> fst acc' < n"
proof (induction pre arbitrary: acc)
  case Nil
  then show ?case by (intro exI [of _ acc]) simp
next
  case (Cons it pre)
  obtain sz data where it: "it = (sz, data)" by (cases it)
  define acc1 where "acc1 = (if normal data > fst acc then (normal data, sz) else acc)"
  have "fst acc1 < n"
    using Cons.prems it by (simp add: acc1_def)
  moreover have "\<forall>it \<in> set pre. normal (snd it) < n"
    using Cons.prems by simp
  ultimately obtain acc' where "refine_body acc1 (pre @ rest) = refine_body acc' rest \<and> fst acc' < n"
    using Cons.IH by blast
  then have "refine_body acc ((it # pre) @ rest) = refine_body acc' rest \<and> fst acc' < n"
    by (simp add: it acc1_def)
  then show ?case by blast
qed

lemma refine_body_first_largest:
  assumes "items = pre @ (sz, d) # post" and "fst acc < normal d"
    and "\<forall>it \<in> set pre. normal (snd it) < normal d"
    and "\<forall>it \<in> set post. normal (snd it) \<le> normal d"
  shows "refine_body acc items = (normal d, sz)"
proof -
  from refine_body_pre [OF assms(3,2), of "(sz, d) # post"] obtain acc' where
    a: "refine_body acc (pre @ (sz, d) # post) = refine_body acc' ((sz, d) # post)" and b: "fst acc' < normal d"
    by blast
  have "refine_body acc' ((sz, d) # post) = refine_body (normal d, sz) post"
    using b by simp
  also have "\<dots> = (normal d, sz)"
    using assms(4) by (simp add: refine_body_below)
  finally show ?thesis using a assms(1) by simp
qed


text \<open>
  C6. For a non-empty list of sizes, the body size starts as the most frequent size,
  every occurrence counted once and ties broken by the first-encountered size. It
  stays so when no (font, size) entry has normal characters. When an entry has a
  positive normal count that is the largest, the first such entry in the order of
  the statistics, its size is the body size; sizes are positive, as the data model has
  them. The thresholds are the body size times 1.6, 1.3 and 1.1.
\<close>

theorem body_font_size_and_thresholds:
  assumes "all_sizes \<noteq> []"
  shows "\<exists>common. most_common1 all_sizes = Some common \<and> first_most_frequent all_sizes common \<and>
           ((\<forall>it \<in> set (style_items font_styles). normal (snd it) = 0) \<longrightarrow>
              estimate_body fl font_styles all_sizes = common) \<and>
           (\<forall>pre sz d post.
              style_items font_styles = pre @ (sz, d) # post \<and> 0 < normal d \<and>
              (\<forall>it \<in> set pre. normal (snd it) < normal d) \<and>
              (\<forall>it \<in> set post. normal (snd it) \<le> normal d) \<and> sz \<noteq> fl_lit fl 0 \<longrightarrow>
              estimate_body fl font_styles all_sizes = sz) \<and>
           h1_threshold fl (estimate_body fl font_styles all_sizes) =
             fl_mul fl (estimate_body fl font_styles all_sizes) (fl_lit fl (16 / 10)) \<and>
           h2_threshold fl (estimate_body fl font_styles all_sizes) =
             fl_mul fl (estimate_body fl font_styles all_sizes) (fl_lit fl (13 / 10)) \<and>
           h3_threshold fl (estimate_body fl font_styles all_sizes) =
             fl_mul fl (estimate_body fl font_styles all_sizes) (fl_lit fl (11 / 10))"
proof -
  from most_common1_first_most_frequent [OF assms] obtain common where
    mc: "most_common1 all_sizes = Some common" and fmf: "first_most_frequent all_sizes common"
    by blast
  have dflt: "(\<forall>it \<in> set (style_items font_styles). normal (snd it) = 0) \<longrightarrow>
              estimate_body fl font_styles all_sizes = common"
  proof
    assume "\<forall>it \<in> set (style_items font_styles). normal (snd it) = 0"
    then have "refine_body (0, common) (style_items font_styles) = (0, common)"
      by (simp add: refine_body_below)
    then show "estimate_body fl font_styles all_sizes = common"
      by (simp add: estimate_body_def mc)
  qed
  have ovr: "\<forall>pre sz d post.
              style_items font_styles = pre @ (sz, d) # post \<and> 0 < normal d \<and>
              (\<forall>it \<in> set pre. normal (snd it) < normal d) \<and>
              (\<forall>it \<in> set post. normal (snd it) \<le> normal d) \<and> sz \<noteq> fl_lit fl 0 \<longrightarrow>
              estimate_body fl font_styles all_sizes = sz"
  proof (intro allI impI, elim conjE)
    fix pre sz d post
    assume h: "style_items font_styles = pre @ (sz, d) # post" "0 < normal d"
      "\<forall>it \<in> set pre. normal (snd it) < normal d" "\<forall>it \<in> set post. normal (snd it) \<le> normal d"
      "sz \<noteq> fl_lit fl 0"
    have "refine_body (0, common) (style_items font_styles) = (normal d, sz)"
      using h(1) _ h(3,4) by (rule refine_body_first_largest) (simp add: h(2))
    then show "estimate_body fl font_styles all_sizes = sz"
      using h(5) by (simp add: estimate_body_def mc)
  qed
  have th: "h1_threshold fl (estimate_body fl font_styles all_sizes) =
             fl_mul fl (estimate_body fl font_styles all_sizes) (fl_lit fl (16 / 10)) \<and>
           h2_threshold fl (estimate_body fl font_styles all_sizes) =
             fl_mul fl (estimate_body fl font_styles all_sizes) (fl_lit fl (13 / 10)) \<and>
           h3_threshold fl (estimate_body fl font_styles all_sizes) =
             fl_mul fl (estimate_body fl font_styles all_sizes) (fl_lit fl (11 / 10))"
    by (simp add: h1_threshold_def h2_threshold_def h3_threshold_def H1_FACTOR_def H2_FACTOR_def H3_FACTOR_def)
  show ?thesis
    using mc fmf dflt ovr th by blast
qed

theorem body_font_size_and_thresholds_witness:
  "bold_sizes \<noteq> [] \<and> map (\<lambda>it. normal (snd it)) (style_items bold_styles) = [0, 0] \<and>
   first_most_frequent bold_sizes 18 \<and> estimate_body exact_ops bold_styles bold_sizes = 18 \<and>
   mixed_sizes \<noteq> [] \<and>
   style_items mixed_styles = [(18, \<lparr> bold = 40, normal = 0 \<rparr>)] @ (12, \<lparr> bold = 0, normal = 250 \<rparr>) #
                                [(10, \<lparr> bold = 0, normal = 250 \<rparr>)] \<and>
   most_common1 mixed_sizes = Some 18 \<and> estimate_body exact_ops mixed_styles mixed_sizes = 12 \<and>
   h1_threshold exact_ops (estimate_body exact_ops mixed_styles mixed_sizes) = 96 / 5"
proof -
  have b1: "bold_sizes \<noteq> []"
    by (simp add: bold_sizes_def)
  have b2: "\<forall>it \<in> set (style_items bold_styles). normal (snd it) = 0"
    by (simp add: style_items_def bold_styles_def)
  have b2': "map (\<lambda>it. normal (snd it)) (style_items bold_styles) = [0, 0]"
    by (simp add: style_items_def bold_styles_def)
  have b3: "most_common1 bold_sizes = Some 18"
    by code_simp
  from body_font_size_and_thresholds [OF b1, of bold_styles exact_ops] obtain common where
    c: "most_common1 bold_sizes = Some common" "first_most_frequent bold_sizes common"
       "(\<forall>it \<in> set (style_items bold_styles). normal (snd it) = 0) \<longrightarrow>
          estimate_body exact_ops bold_styles bold_sizes = common"
    by blast
  from c(1) b3 have c18: "common = 18" by simp
  have b4: "first_most_frequent bold_sizes 18"
    using c(2) c18 by simp
  have b5: "estimate_body exact_ops bold_styles bold_sizes = 18"
    using c(3) b2 c18 by simp
  have m1: "mixed_sizes \<noteq> []"
    by (simp add: mixed_sizes_def)
  have m2: "style_items mixed_styles = [(18, \<lparr> bold = 40, normal = 0 \<rparr>)] @ (12, \<lparr> bold = 0, normal = 250 \<rparr>) #
                                [(10, \<lparr> bold = 0, normal = 250 \<rparr>)]"
    by (simp add: style_items_def mixed_styles_def)
  have m3: "most_common1 mixed_sizes = Some 18"
    by code_simp
  from body_font_size_and_thresholds [OF m1, of mixed_styles exact_ops] obtain common' where
    d: "\<forall>pre sz d post.
              style_items mixed_styles = pre @ (sz, d) # post \<and> 0 < normal d \<and>
              (\<forall>it \<in> set pre. normal (snd it) < normal d) \<and>
              (\<forall>it \<in> set post. normal (snd it) \<le> normal d) \<and> sz \<noteq> fl_lit exact_ops 0 \<longrightarrow>
              estimate_body exact_ops mixed_styles mixed_sizes = sz"
       "h1_threshold exact_ops (estimate_body exact_ops mixed_styles mixed_sizes) =
             fl_mul exact_ops (estimate_body exact_ops mixed_styles mixed_sizes) (fl_lit exact_ops (16 / 10))"
    by blast
  have m4: "estimate_body exact_ops mixed_styles mixed_sizes = 12"
  proof -
    have "style_items mixed_styles = [(18, \<lparr> bold = 40, normal = 0 \<rparr>)] @ (12, \<lparr> bold = 0, normal = 250 \<rparr>) #
                                [(10, \<lparr> bold = 0, normal = 250 \<rparr>)] \<and>
          0 < normal \<lparr> bold = 0, normal = 250 \<rparr> \<and>
          (\<forall>it \<in> set [(18 :: rat, \<lparr> bold = 40, normal = 0 \<rparr>)]. normal (snd it) < normal \<lparr> bold = 0, normal = 250 \<rparr>) \<and>
          (\<forall>it \<in> set [(10 :: rat, \<lparr> bold = 0, normal = 250 \<rparr>)]. normal (snd it) \<le> normal \<lparr> bold = 0, normal = 250 \<rparr>) \<and>
          (12 :: rat) \<noteq> fl_lit exact_ops 0"
      using m2 by (simp add: exact_ops_def)
    then show ?thesis using d(1) by blast
  qed
  have m5: "h1_threshold exact_ops (estimate_body exact_ops mixed_styles mixed_sizes) = 96 / 5"
    using d(2) m4 by (simp add: exact_ops_def)
  show ?thesis
    by (intro conjI b1 b2' b4 b5 m1 m2 m3 m4 m5)
qed

lemma set_dict_set: "set (dict_set d k v) \<subseteq> set d \<union> {(k, v)}"
  by (induction d) (auto split: if_splits)

lemma record_span_no_normal:
  assumes "record_span fl st sp = Inr st'"
    and "\<forall>it \<in> set (style_items (fst st)). normal (snd it) = 0"
  shows "\<forall>it \<in> set (style_items (fst st')). normal (snd it) = 0"
proof -
  have bold_sp: "is_bold sp = Inr True"
    using assms(1) by (auto simp: record_span_def is_bold_eq Let_def split: if_splits)
  define sizes where "sizes = (case map_of (fst st) (span_font sp) of None \<Rightarrow> [] | Some d \<Rightarrow> d)"
  define sz where "sz = fl_round1 fl (span_size sp)"
  define cnt where "cnt = (case map_of sizes sz of None \<Rightarrow> \<lparr> bold = 0, normal = 0 \<rparr> | Some c \<Rightarrow> c)"
  define cnt' where "cnt' = cnt \<lparr> bold := bold cnt + length (span_text sp) \<rparr>"
  have st': "fst st' = dict_set (fst st) (span_font sp) (dict_set sizes sz cnt')"
    using assms(1) bold_sp by (auto simp: record_span_def Let_def sizes_def sz_def cnt_def cnt'_def)
  have sizes_ok: "\<forall>it \<in> set sizes. normal (snd it) = 0"
  proof (cases "map_of (fst st) (span_font sp)")
    case None
    then show ?thesis by (simp add: sizes_def)
  next
    case (Some d)
    then have "(span_font sp, d) \<in> set (fst st)" by (rule map_of_SomeD)
    then have "set d \<subseteq> set (style_items (fst st))"
      by (force simp: style_items_def)
    then show ?thesis using assms(2) Some by (auto simp: sizes_def)
  qed
  have "normal cnt = 0"
  proof (cases "map_of sizes sz")
    case None
    then show ?thesis by (simp add: cnt_def)
  next
    case (Some c)
    then have "(sz, c) \<in> set sizes" by (rule map_of_SomeD)
    then show ?thesis using sizes_ok Some by (auto simp: cnt_def)
  qed
  then have "normal cnt' = 0" by (simp add: cnt'_def)
  then have new_ok: "\<forall>it \<in> set (dict_set sizes sz cnt'). normal (snd it) = 0"
    using sizes_ok set_dict_set [of sizes sz cnt'] by auto
  show ?thesis
  proof
    fix it assume "it \<in> set (style_items (fst st'))"
    then obtain f d where fd: "(f, d) \<in> set (fst st')" and it: "it \<in> set d"
      by (auto simp: style_items_def)
    from fd st' set_dict_set [of "fst st" "span_font sp" "dict_set sizes sz cnt'"]
    have "(f, d) \<in> set (fst st) \<or> d = dict_set sizes sz cnt'" by auto
    then show "normal (snd it) = 0"
    proof
      assume "(f, d) \<in> set (fst st)"
      then have "it \<in> set (style_items (fst st))"
        using it by (force simp: style_items_def)
      then show ?thesis using assms(2) by blast
    next
      assume "d = dict_set sizes sz cnt'"
      then show ?thesis using it new_ok by blast
    qed
  qed
qed

lemma collect_stats_no_normal:
  "collect_stats fl st sps = Inr st' \<Longrightarrow> \<forall>it \<in> set (style_items (fst st)). normal (snd it) = 0
   \<Longrightarrow> \<forall>it \<in> set (style_items (fst st')). normal (snd it) = 0"
proof (induction sps arbitrary: st)
  case Nil
  then show ?case by simp
next
  case (Cons sp sps)
  from Cons.prems(1) obtain st1 where
    s1: "record_span fl st sp = Inr st1" and s2: "collect_stats fl st1 sps = Inr st'"
    by (auto split: sum.splits)
  from record_span_no_normal [OF s1 Cons.prems(2)] Cons.IH [OF s2] show ?case by blast
qed

text \<open>
  In the program itself the statistics pass ends without an exception only when every
  span is bold, so no entry it returns has normal characters.
\<close>

lemma collected_stats_all_bold:
  assumes "collect_stats fl ([], []) sps = Inr (font_styles, all_sizes)"
  shows "\<forall>it \<in> set (style_items font_styles). normal (snd it) = 0"
  using collect_stats_no_normal [OF assms] by (simp add: style_items_def)

end
